theory Spec2Isabelle
  imports Main
begin

section \<open>Tokens\<close>

text \<open>
  The token categories of \<open>Lexer\<close> and the token structure \<open>{category, value}\<close>.
  The field \<open>value\<close> is called \<open>tvalue\<close> here.
\<close>

datatype category =
    PUNCTUATOR | KEYWORD | IDENTIFIER | OPERATOR
  | INTEGER_LITERAL | FLOAT_LITERAL | BOOLEAN_LITERAL | STRING_LITERAL
  | LINE_COMMENT | BLOCK_COMMENT | UNKNOWN

record token =
  category :: category
  tvalue :: string

section \<open>The lexer (lexer.cpp)\<close>

definition Lexer_keywords :: "string list" where
  "Lexer_keywords = [''let'', ''var'', ''const'', ''function'', ''return'', ''true'', ''false'',
     ''if'', ''else'', ''for'', ''while'', ''break'', ''continue'']"

definition Lexer_operators :: "string list" where
  "Lexer_operators = [''='', ''!'', ''+'', ''-'', ''*'', ''/'', ''%'', ''+='', ''-='', ''*='', ''/='',
     ''%='', ''=='', ''!='', ''<'', ''<='', ''>'', ''>='']"

definition Lexer_punctuators :: "string list" where
  "Lexer_punctuators = ['';'', ''.'', '','', ''('', '')'', ''{'', ''}'', ''['', '']'']"

definition is_keyword :: "string \<Rightarrow> bool" where
  "is_keyword v = (v \<in> set Lexer_keywords)"

definition is_operator :: "string \<Rightarrow> bool" where
  "is_operator v = (v \<in> set Lexer_operators)"

definition is_punctuator :: "string \<Rightarrow> bool" where
  "is_punctuator v = (v \<in> set Lexer_punctuators)"

text \<open>
  The character classes of \<open><cctype>\<close> in the default "C" locale, on 7-bit characters:
  \<open>isspace\<close> is space, \<open>\t\<close>, \<open>\n\<close>, \<open>\v\<close>, \<open>\f\<close>, \<open>\r\<close>.
\<close>

definition isspace :: "char \<Rightarrow> bool" where
  "isspace c = (c \<in> set [CHR 0x20, CHR 0x09, CHR 0x0A, CHR 0x0B, CHR 0x0C, CHR 0x0D])"

definition isalpha :: "char \<Rightarrow> bool" where
  "isalpha c = (c \<in> set ''abcdefghijklmnopqrstuvwxyzABCDEFGHIJKLMNOPQRSTUVWXYZ'')"

definition isdigit :: "char \<Rightarrow> bool" where
  "isdigit c = (c \<in> set ''0123456789'')"

text \<open>
  \<open>raw[i]\<close> on a \<open>std::string\<close>: the character at \<open>i\<close>, and the terminating null character
  at \<open>i = raw.length()\<close>. The lexer never indexes beyond that.
\<close>

definition char_at :: "string \<Rightarrow> nat \<Rightarrow> char" where
  "char_at raw i = (if i < length raw then raw ! i else CHR 0x00)"

text \<open>
  Every inner loop of \<open>Lexer::lex\<close> has the shape
  \<^verbatim>\<open>while (i + 1 < raw.length() && P(ct.value, raw[i + 1])) ct.value += raw[++i];\<close>
  and \<open>extend_while P raw i v\<close> is that loop, returning the final \<open>i\<close> and \<open>ct.value\<close>.
\<close>

function extend_while :: "(string \<Rightarrow> char \<Rightarrow> bool) \<Rightarrow> string \<Rightarrow> nat \<Rightarrow> string \<Rightarrow> nat \<times> string" where
  "extend_while P raw i v =
     (if i + 1 < length raw \<and> P v (char_at raw (i + 1))
      then extend_while P raw (i + 1) (v @ [char_at raw (i + 1)])
      else (i, v))"
  by pat_completeness auto
termination
  by (relation "measure (\<lambda>(P, raw, i, v). length raw - i)") auto

declare extend_while.simps [simp del]

datatype lex_error = Unknown_token string

text \<open>
  \<open>Lexer::lex\<close>: the \<open>for\<close> loop over \<open>i\<close>, from index \<open>i\<close> with the tokens pushed so far.
  \<open>throw std::runtime_error(msg)\<close> is \<open>Inl (Unknown_token msg)\<close>; \<open>ct.value\<close> has just been
  reset there, so the message is the bare prefix.
\<close>

function lex_from :: "string \<Rightarrow> nat \<Rightarrow> token list \<Rightarrow> lex_error + token list" where
  "lex_from raw i tokens =
     (if \<not> i < length raw then Inr tokens
      else let c = char_at raw i in
        if isspace c then lex_from raw (i + 1) tokens
        else if isalpha c then
          (case extend_while (\<lambda>v d. isalpha d \<or> isdigit d) raw i [c] of (j, v) \<Rightarrow>
             lex_from raw (j + 1)
               (tokens @ [\<lparr>category =
                   (if v = ''false'' \<or> v = ''true'' then BOOLEAN_LITERAL
                    else if is_keyword v then KEYWORD else IDENTIFIER),
                 tvalue = v\<rparr>]))
        else if isdigit c then
          (case extend_while (\<lambda>v d. isdigit d) raw i [c] of (j, v) \<Rightarrow>
             if char_at raw (j + 1) = CHR ''.'' \<and> isdigit (char_at raw (j + 2))
             then (case extend_while (\<lambda>v d. isdigit d) raw (j + 1) (v @ [char_at raw (j + 1)]) of
                     (k, w) \<Rightarrow>
                       lex_from raw (k + 1) (tokens @ [\<lparr>category = FLOAT_LITERAL, tvalue = w\<rparr>]))
             else lex_from raw (j + 1) (tokens @ [\<lparr>category = INTEGER_LITERAL, tvalue = v\<rparr>]))
        else if is_operator [c] then
          (case extend_while (\<lambda>v d. is_operator (v @ [d])) raw i [c] of (j, v) \<Rightarrow>
             lex_from raw (j + 1) (tokens @ [\<lparr>category = OPERATOR, tvalue = v\<rparr>]))
        else if is_punctuator [c] then
          (case extend_while (\<lambda>v d. is_punctuator (v @ [d])) raw i [c] of (j, v) \<Rightarrow>
             lex_from raw (j + 1) (tokens @ [\<lparr>category = PUNCTUATOR, tvalue = v\<rparr>]))
        else if c = CHR 0x22 then
          (case extend_while (\<lambda>v d. d \<noteq> CHR 0x22) raw i [] of (j, v) \<Rightarrow>
             lex_from raw (j + 1 + 1) (tokens @ [\<lparr>category = STRING_LITERAL, tvalue = v\<rparr>]))
        else Inl (Unknown_token ''Unkown token: ''))"
  by pat_completeness auto
termination
proof -
  have ge: "i \<le> j" if "extend_while P raw i v = (j, w)" for P raw i v j w
    using that
  proof (induction P raw i v rule: extend_while.induct)
    case (1 P raw i v)
    show ?case
    proof (cases "i + 1 < length raw \<and> P v (char_at raw (i + 1))")
      case True
      with "1.prems" have "extend_while P raw (i + 1) (v @ [char_at raw (i + 1)]) = (j, w)"
        by (subst (asm) extend_while.simps) simp
      with "1.IH" True have "i + 1 \<le> j" by blast
      then show ?thesis by simp
    next
      case False
      with "1.prems" show ?thesis by (subst (asm) extend_while.simps) auto
    qed
  qed
  show ?thesis
  proof (relation "measure (\<lambda>(raw, i, tokens). length raw - i)", goal_cases)
    case 1
    show ?case by simp
  next
    case 2
    then show ?case by simp
  next
    case 3
    then show ?case by (auto dest!: sym [THEN ge])
  next
    case 4
    then show ?case by (auto dest!: sym [THEN ge])
  next
    case 5
    then show ?case by (auto dest!: sym [THEN ge])
  next
    case 6
    then show ?case by (auto dest!: sym [THEN ge])
  next
    case 7
    then show ?case by (auto dest!: sym [THEN ge])
  next
    case 8
    then show ?case by (auto dest!: sym [THEN ge])
  qed
qed

declare lex_from.simps [simp del]

definition Lexer_lex :: "string \<Rightarrow> lex_error + token list" where
  "Lexer_lex raw = lex_from raw 0 []"

section \<open>The syntax tree\<close>

text \<open>
  The node classes the parser constructs, with the fields in the order of the constructor
  calls of the parser: \<open>VariableDeclaration(op, identifier, value)\<close>,
  \<open>FunctionDeclaration {type, identifier, args_types, args_ids, statement}\<close>,
  \<open>ConditionalStatement {condition, pass_statement, fail_statement}\<close> (the last a null
  pointer without \<open>else\<close>), \<open>BinaryOperation(left, op, right)\<close>,
  \<open>UnaryOperation(op, right)\<close>, \<open>CastOperation(expr, type)\<close>.
\<close>

datatype node =
    EmptyStatement
  | VariableDeclaration string string node
  | FunctionDeclaration string string "string list" "string list" node
  | VariableAssignment string node
  | ScopeDeclaration "node list"
  | ConditionalStatement node node "node option"
  | WhileLoopStatement node node
  | ReturnStatement node
  | FunctionCall string "node list"
  | VariableCall string
  | BinaryOperation node string node
  | UnaryOperation string node
  | CastOperation node string
  | IntegerLiteral string
  | FloatLiteral string
  | BooleanLiteral bool
  | StringLiteral string

section \<open>The parser: state, errors and cursor primitives\<close>

text \<open>
  \<open>Runtime_error msg\<close> is \<open>throw std::runtime_error(msg)\<close>. \<open>Out_of_bounds\<close> is a read of
  \<open>tokens[k]\<close> with \<open>k\<close> outside the vector, which the C++ leaves undefined; the model
  stops there. \<open>Out_of_fuel\<close> is the model's own bound on the recursion depth.
\<close>

datatype parse_error = Runtime_error string | Out_of_bounds | Out_of_fuel

text \<open>The members the parser mutates; the token vector is constant and passed along.\<close>

record pstate =
  current :: nat
  success :: bool

type_synonym 'a presult = "(parse_error + 'a) \<times> pstate"

definition return_p :: "'a \<Rightarrow> pstate \<Rightarrow> 'a presult" where
  "return_p x st = (Inr x, st)"

definition bind_p :: "(pstate \<Rightarrow> 'a presult) \<Rightarrow> ('a \<Rightarrow> pstate \<Rightarrow> 'b presult) \<Rightarrow> pstate \<Rightarrow> 'b presult" where
  "bind_p m f st = (case m st of (Inl e, st') \<Rightarrow> (Inl e, st') | (Inr x, st') \<Rightarrow> f x st')"

definition at_end :: "token list \<Rightarrow> pstate \<Rightarrow> bool" where
  "at_end tokens st = (current st \<ge> length tokens)"

text \<open>\<open>tokens[k]\<close>, for the index expression \<open>k\<close> as an integer.\<close>

definition tokens_at :: "token list \<Rightarrow> int \<Rightarrow> pstate \<Rightarrow> token presult" where
  "tokens_at tokens k st =
     (if 0 \<le> k \<and> k < int (length tokens) then (Inr (tokens ! nat k), st)
      else (Inl Out_of_bounds, st))"

definition peek :: "token list \<Rightarrow> pstate \<Rightarrow> token presult" where
  "peek tokens st = tokens_at tokens (int (current st)) st"

definition previous :: "token list \<Rightarrow> pstate \<Rightarrow> token presult" where
  "previous tokens st = tokens_at tokens (int (current st) - 1) st"

definition next_token :: "token list \<Rightarrow> pstate \<Rightarrow> token presult" where
  "next_token tokens st =
     (if \<not> at_end tokens st then tokens_at tokens (int (current st) + 1) st
      else peek tokens st)"

definition advance :: "token list \<Rightarrow> pstate \<Rightarrow> token presult" where
  "advance tokens st =
     previous tokens (if \<not> at_end tokens st then st\<lparr>current := current st + 1\<rparr> else st)"

fun match :: "token list \<Rightarrow> string list \<Rightarrow> pstate \<Rightarrow> bool presult" where
  "match tokens [] st = (Inr False, st)"
| "match tokens (type # values) st =
     bind_p (peek tokens)
       (\<lambda>t. if tvalue t = type then bind_p (advance tokens) (\<lambda>_. return_p True)
            else match tokens values) st"

fun match_next :: "token list \<Rightarrow> string list \<Rightarrow> pstate \<Rightarrow> bool presult" where
  "match_next tokens [] st = (Inr False, st)"
| "match_next tokens (type # values) st =
     bind_p (next_token tokens)
       (\<lambda>t. if tvalue t = type then return_p True else match_next tokens values) st"

definition type_names :: "string list" where
  "type_names = [''uint8'', ''uint16'', ''uint32'', ''uint64'', ''int8'', ''int16'', ''int32'',
     ''int64'', ''float8'', ''float16'', ''float32'', ''float64'', ''bool'', ''string'',
     ''vector'', ''ptr'', ''ref'']"

text \<open>
  In \<open>match_key\<close> the loop over the type names, taken for a \<open>KEYWORD\<close> token, is the loop
  of \<open>match\<close> on that list: compare \<open>peek().value\<close>, \<open>advance\<close> and answer true on the
  first hit, false after the last name.
\<close>

definition match_key :: "token list \<Rightarrow> pstate \<Rightarrow> bool presult" where
  "match_key tokens =
     bind_p (peek tokens)
       (\<lambda>t. if category t = IDENTIFIER then bind_p (advance tokens) (\<lambda>_. return_p True)
            else if category t = KEYWORD then match tokens type_names
            else return_p False)"

text \<open>\<open>Parser::error\<close>: clears the success flag, then throws.\<close>

definition error :: "string \<Rightarrow> pstate \<Rightarrow> 'a presult" where
  "error msg st = (Inl (Runtime_error msg), st\<lparr>success := False\<rparr>)"

definition consume :: "token list \<Rightarrow> string \<Rightarrow> string \<Rightarrow> pstate \<Rightarrow> token presult" where
  "consume tokens type message =
     bind_p (peek tokens)
       (\<lambda>t. if tvalue t = type
            then (\<lambda>st. tokens_at tokens (int (current st)) (st\<lparr>current := current st + 1\<rparr>))
            else error message)"

text \<open>\<open>quoted s\<close> is \<open>s\<close> between single quotes, as the messages of the parser have it.\<close>

definition quoted :: "string \<Rightarrow> string" where
  "quoted s = CHR 0x27 # s @ [CHR 0x27]"

section \<open>The parser: expressions\<close>

text \<open>
  The functions of the precedence cascade call each other in a cycle: \<open>expression\<close> calls
  \<open>equality\<close>, and so on down to \<open>primary\<close>, which calls \<open>expression\<close> again for a
  parenthesised expression and for the arguments of a call. Each function below is the
  body of the source function, with the parser that \<open>primary\<close> uses for \<open>expression()\<close>
  as the argument \<open>inner\<close>; \<open>expression\<close> itself closes the cycle.

  The first argument bounds the recursion: \<open>expression\<close>, \<open>unary\<close> and every \<open>while\<close> loop
  of the source pass one less to their recursive call, and the result at zero is
  \<open>Out_of_fuel\<close>. A \<open>while\<close> loop that calls a parsing function is a function of its own,
  named after the function it belongs to, which carries the loop's variable. The argument
  loop \<open>while (peek().value != ")") {...}\<close>, written out twice in the source
  (in \<open>function_call\<close> and in \<open>primary\<close>), is \<open>call_arguments\<close>.
\<close>

primrec call_arguments ::
  "nat \<Rightarrow> (pstate \<Rightarrow> node presult) \<Rightarrow> token list \<Rightarrow> node list \<Rightarrow> pstate \<Rightarrow> node list presult" where
  "call_arguments 0 inner tokens args st = (Inl Out_of_fuel, st)"
| "call_arguments (Suc n) inner tokens args st =
     bind_p (peek tokens) (\<lambda>t. if tvalue t \<noteq> '')''
     then bind_p inner (\<lambda>arg.
          bind_p (peek tokens) (\<lambda>t'.
          bind_p (if tvalue t' \<noteq> '')'' then consume tokens '','' (''Expected '' @ quoted '','')
                  else return_p t') (\<lambda>_.
          call_arguments n inner tokens (args @ [arg]))))
     else return_p args) st"

definition primary :: "nat \<Rightarrow> (pstate \<Rightarrow> node presult) \<Rightarrow> token list \<Rightarrow> pstate \<Rightarrow> node presult" where
  "primary n inner tokens =
     bind_p (peek tokens) (\<lambda>t.
     if category t = INTEGER_LITERAL
     then bind_p (advance tokens) (\<lambda>a. return_p (IntegerLiteral (tvalue a)))
     else if category t = FLOAT_LITERAL
     then bind_p (advance tokens) (\<lambda>a. return_p (FloatLiteral (tvalue a)))
     else if category t = BOOLEAN_LITERAL
     then bind_p (advance tokens) (\<lambda>a. return_p (BooleanLiteral (tvalue a = ''true'')))
     else if category t = STRING_LITERAL
     then bind_p (advance tokens) (\<lambda>a. return_p (StringLiteral (tvalue a)))
     else if category t = IDENTIFIER
     then bind_p (next_token tokens) (\<lambda>nt. if tvalue nt = ''(''
          then bind_p (advance tokens) (\<lambda>identifier.
               bind_p (advance tokens) (\<lambda>_.
               bind_p (call_arguments n inner tokens []) (\<lambda>args.
               bind_p (consume tokens '')'' (''Expected '' @ quoted '')'')) (\<lambda>_.
               return_p (FunctionCall (tvalue identifier) args)))))
          else bind_p (advance tokens) (\<lambda>a. return_p (VariableCall (tvalue a))))
     else bind_p (match tokens [''('']) (\<lambda>b. if b
          then bind_p inner (\<lambda>expr.
               bind_p (consume tokens '')'' (''Expected '' @ quoted '')'' @ '' after expression''))
                 (\<lambda>_.
               return_p expr))
          else error (''Unexpected token '' @ quoted (tvalue t))))"

primrec unary :: "nat \<Rightarrow> (pstate \<Rightarrow> node presult) \<Rightarrow> token list \<Rightarrow> pstate \<Rightarrow> node presult" where
  "unary 0 inner tokens st = (Inl Out_of_fuel, st)"
| "unary (Suc n) inner tokens st =
     bind_p (match tokens [''-'', ''!'']) (\<lambda>b. if b
     then bind_p (previous tokens) (\<lambda>op.
          bind_p (unary n inner tokens) (\<lambda>right.
          return_p (UnaryOperation (tvalue op) right)))
     else primary n inner tokens) st"

primrec remainder_loop ::
  "nat \<Rightarrow> (pstate \<Rightarrow> node presult) \<Rightarrow> token list \<Rightarrow> node \<Rightarrow> pstate \<Rightarrow> node presult" where
  "remainder_loop 0 inner tokens expr st = (Inl Out_of_fuel, st)"
| "remainder_loop (Suc n) inner tokens expr st =
     bind_p (match tokens [''%'']) (\<lambda>b. if b
     then bind_p (previous tokens) (\<lambda>op.
          bind_p (unary n inner tokens) (\<lambda>right.
          remainder_loop n inner tokens (BinaryOperation expr (tvalue op) right)))
     else return_p expr) st"

definition remainder :: "nat \<Rightarrow> (pstate \<Rightarrow> node presult) \<Rightarrow> token list \<Rightarrow> pstate \<Rightarrow> node presult" where
  "remainder n inner tokens =
     bind_p (unary n inner tokens) (\<lambda>expr. remainder_loop n inner tokens expr)"

primrec factor_loop ::
  "nat \<Rightarrow> (pstate \<Rightarrow> node presult) \<Rightarrow> token list \<Rightarrow> node \<Rightarrow> pstate \<Rightarrow> node presult" where
  "factor_loop 0 inner tokens expr st = (Inl Out_of_fuel, st)"
| "factor_loop (Suc n) inner tokens expr st =
     bind_p (match tokens [''*'', ''/'']) (\<lambda>b. if b
     then bind_p (previous tokens) (\<lambda>op.
          bind_p (remainder n inner tokens) (\<lambda>right.
          factor_loop n inner tokens (BinaryOperation expr (tvalue op) right)))
     else return_p expr) st"

definition factor :: "nat \<Rightarrow> (pstate \<Rightarrow> node presult) \<Rightarrow> token list \<Rightarrow> pstate \<Rightarrow> node presult" where
  "factor n inner tokens =
     bind_p (remainder n inner tokens) (\<lambda>expr. factor_loop n inner tokens expr)"

primrec term_loop ::
  "nat \<Rightarrow> (pstate \<Rightarrow> node presult) \<Rightarrow> token list \<Rightarrow> node \<Rightarrow> pstate \<Rightarrow> node presult" where
  "term_loop 0 inner tokens expr st = (Inl Out_of_fuel, st)"
| "term_loop (Suc n) inner tokens expr st =
     bind_p (match tokens [''+'', ''-'']) (\<lambda>b. if b
     then bind_p (previous tokens) (\<lambda>op.
          bind_p (factor n inner tokens) (\<lambda>right.
          term_loop n inner tokens (BinaryOperation expr (tvalue op) right)))
     else return_p expr) st"

definition term_expr :: "nat \<Rightarrow> (pstate \<Rightarrow> node presult) \<Rightarrow> token list \<Rightarrow> pstate \<Rightarrow> node presult" where
  "term_expr n inner tokens =
     bind_p (factor n inner tokens) (\<lambda>expr. term_loop n inner tokens expr)"

primrec cast_loop :: "nat \<Rightarrow> token list \<Rightarrow> node \<Rightarrow> pstate \<Rightarrow> node presult" where
  "cast_loop 0 tokens expr st = (Inl Out_of_fuel, st)"
| "cast_loop (Suc n) tokens expr st =
     bind_p (match tokens [''as'']) (\<lambda>b. if b
     then bind_p (advance tokens) (\<lambda>type.
          cast_loop n tokens (CastOperation expr (tvalue type)))
     else return_p expr) st"

definition cast :: "nat \<Rightarrow> (pstate \<Rightarrow> node presult) \<Rightarrow> token list \<Rightarrow> pstate \<Rightarrow> node presult" where
  "cast n inner tokens =
     bind_p (term_expr n inner tokens) (\<lambda>expr. cast_loop n tokens expr)"

primrec comparison_loop ::
  "nat \<Rightarrow> (pstate \<Rightarrow> node presult) \<Rightarrow> token list \<Rightarrow> node \<Rightarrow> pstate \<Rightarrow> node presult" where
  "comparison_loop 0 inner tokens expr st = (Inl Out_of_fuel, st)"
| "comparison_loop (Suc n) inner tokens expr st =
     bind_p (match tokens [''<'', ''<='', ''>'', ''>='']) (\<lambda>b. if b
     then bind_p (previous tokens) (\<lambda>op.
          bind_p (cast n inner tokens) (\<lambda>right.
          comparison_loop n inner tokens (BinaryOperation expr (tvalue op) right)))
     else return_p expr) st"

definition comparison :: "nat \<Rightarrow> (pstate \<Rightarrow> node presult) \<Rightarrow> token list \<Rightarrow> pstate \<Rightarrow> node presult" where
  "comparison n inner tokens =
     bind_p (cast n inner tokens) (\<lambda>expr. comparison_loop n inner tokens expr)"

primrec equality_loop ::
  "nat \<Rightarrow> (pstate \<Rightarrow> node presult) \<Rightarrow> token list \<Rightarrow> node \<Rightarrow> pstate \<Rightarrow> node presult" where
  "equality_loop 0 inner tokens expr st = (Inl Out_of_fuel, st)"
| "equality_loop (Suc n) inner tokens expr st =
     bind_p (match tokens [''=='', ''!='']) (\<lambda>b. if b
     then bind_p (previous tokens) (\<lambda>op.
          bind_p (comparison n inner tokens) (\<lambda>right.
          equality_loop n inner tokens (BinaryOperation expr (tvalue op) right)))
     else return_p expr) st"

definition equality :: "nat \<Rightarrow> (pstate \<Rightarrow> node presult) \<Rightarrow> token list \<Rightarrow> pstate \<Rightarrow> node presult" where
  "equality n inner tokens =
     bind_p (comparison n inner tokens) (\<lambda>expr. equality_loop n inner tokens expr)"

primrec expression :: "nat \<Rightarrow> token list \<Rightarrow> pstate \<Rightarrow> node presult" where
  "expression 0 tokens st = (Inl Out_of_fuel, st)"
| "expression (Suc n) tokens st = equality n (expression n tokens) tokens st"

section \<open>The parser: statements and declarations\<close>

text \<open>
  The statement functions that call \<open>statement()\<close> again take the parser used for that
  call as the argument \<open>body\<close>, and \<open>statement\<close> closes the cycle, as \<open>expression\<close> does
  above. The others call \<open>expression\<close> only.
\<close>

primrec scope_declaration_loop ::
  "nat \<Rightarrow> (pstate \<Rightarrow> node presult) \<Rightarrow> token list \<Rightarrow> node list \<Rightarrow> pstate \<Rightarrow> node list presult" where
  "scope_declaration_loop 0 body tokens ast st = (Inl Out_of_fuel, st)"
| "scope_declaration_loop (Suc n) body tokens ast st =
     bind_p (peek tokens) (\<lambda>t. if tvalue t \<noteq> ''}''
     then bind_p body (\<lambda>s. scope_declaration_loop n body tokens (ast @ [s]))
     else return_p ast) st"

definition scope_declaration ::
  "nat \<Rightarrow> (pstate \<Rightarrow> node presult) \<Rightarrow> token list \<Rightarrow> pstate \<Rightarrow> node presult" where
  "scope_declaration n body tokens =
     bind_p (scope_declaration_loop n body tokens []) (\<lambda>ast.
     bind_p (advance tokens) (\<lambda>_.
     return_p (ScopeDeclaration ast)))"

definition conditional_statement ::
  "nat \<Rightarrow> (pstate \<Rightarrow> node presult) \<Rightarrow> token list \<Rightarrow> pstate \<Rightarrow> node presult" where
  "conditional_statement n body tokens =
     bind_p (consume tokens ''('' (''Expected '' @ quoted ''('')) (\<lambda>_.
     bind_p (expression n tokens) (\<lambda>condition.
     bind_p (consume tokens '')'' (''Expected '' @ quoted '')'')) (\<lambda>_.
     bind_p body (\<lambda>pass_statement.
     bind_p (peek tokens) (\<lambda>t. if tvalue t = ''else''
     then bind_p (advance tokens) (\<lambda>_.
          bind_p body (\<lambda>fail_statement.
          return_p (ConditionalStatement condition pass_statement (Some fail_statement))))
     else return_p (ConditionalStatement condition pass_statement None))))))"

definition while_loop_statement ::
  "nat \<Rightarrow> (pstate \<Rightarrow> node presult) \<Rightarrow> token list \<Rightarrow> pstate \<Rightarrow> node presult" where
  "while_loop_statement n body tokens =
     bind_p (consume tokens ''('' (''Expected '' @ quoted ''('')) (\<lambda>_.
     bind_p (expression n tokens) (\<lambda>condition.
     bind_p (consume tokens '')'' (''Expected '' @ quoted '')'')) (\<lambda>_.
     bind_p body (\<lambda>s.
     return_p (WhileLoopStatement condition s)))))"

definition return_statement :: "nat \<Rightarrow> token list \<Rightarrow> pstate \<Rightarrow> node presult" where
  "return_statement n tokens =
     bind_p (bind_p (peek tokens) (\<lambda>t. if tvalue t = '';'' then return_p EmptyStatement
                                        else expression n tokens)) (\<lambda>expr.
     bind_p (consume tokens '';'' (''Expected '' @ quoted '';'' @ '' after statement'')) (\<lambda>_.
     return_p (ReturnStatement expr)))"

definition variable_declaration :: "nat \<Rightarrow> token list \<Rightarrow> pstate \<Rightarrow> node presult" where
  "variable_declaration n tokens =
     bind_p (previous tokens) (\<lambda>op.
     bind_p (bind_p (peek tokens) (\<lambda>t. if category t = IDENTIFIER then advance tokens
                                        else error ''Expected identifier'')) (\<lambda>identifier.
     bind_p (consume tokens ''='' (''Expected '' @ quoted ''='')) (\<lambda>_.
     bind_p (expression n tokens) (\<lambda>val.
     bind_p (consume tokens '';'' (''Expected '' @ quoted '';'' @ '' after statement'')) (\<lambda>_.
     return_p (VariableDeclaration (tvalue op) (tvalue identifier) val))))))"

text \<open>
  In \<open>variable_assignment\<close> the operator of the \<open>BinaryOperation\<close> is set by the chain of
  comparisons with the five compound operators and stays the empty string otherwise.
\<close>

definition variable_assignment :: "nat \<Rightarrow> token list \<Rightarrow> pstate \<Rightarrow> node presult" where
  "variable_assignment n tokens =
     bind_p (advance tokens) (\<lambda>identifier.
     bind_p (bind_p (peek tokens) (\<lambda>t. if category t = OPERATOR then advance tokens
                                        else error ''Expected operator'')) (\<lambda>op.
     bind_p (expression n tokens) (\<lambda>val.
     bind_p (consume tokens '';'' (''Expected '' @ quoted '';'' @ '' after statement'')) (\<lambda>_.
     if tvalue op = ''=''
     then return_p (VariableAssignment (tvalue identifier) val)
     else return_p (VariableAssignment (tvalue identifier)
            (BinaryOperation (VariableCall (tvalue identifier))
               (if tvalue op = ''+='' then ''+''
                else if tvalue op = ''-='' then ''-''
                else if tvalue op = ''*='' then ''*''
                else if tvalue op = ''/='' then ''/''
                else if tvalue op = ''%='' then ''%''
                else [])
               val))))))"

definition function_call :: "nat \<Rightarrow> token list \<Rightarrow> pstate \<Rightarrow> node presult" where
  "function_call n tokens =
     bind_p (advance tokens) (\<lambda>identifier.
     bind_p (advance tokens) (\<lambda>_.
     bind_p (call_arguments n (expression n tokens) tokens []) (\<lambda>args.
     bind_p (advance tokens) (\<lambda>_.
     bind_p (consume tokens '';'' (''Expected '' @ quoted '';'' @ '' after statement'')) (\<lambda>_.
     return_p (FunctionCall (tvalue identifier) args))))))"

text \<open>
  \<open>statement\<close>: the chain of \<open>if (...) return ...;\<close> of the source. \<open>fallthrough\<close> is the
  code after the declaration lookahead (the empty statement, else a bare expression), and
  \<open>declarations\<close> is the code from \<open>if (match_key())\<close> on; both are reached from several
  places, since an \<open>if\<close> whose inner test fails falls out of its block.
\<close>

primrec statement :: "nat \<Rightarrow> token list \<Rightarrow> pstate \<Rightarrow> node presult" where
  "statement 0 tokens st = (Inl Out_of_fuel, st)"
| "statement (Suc n) tokens st =
     bind_p (match tokens [''{'']) (\<lambda>b. if b
       then scope_declaration n (statement n tokens) tokens else
     bind_p (match tokens [''if'', ''else'']) (\<lambda>b. if b
       then conditional_statement n (statement n tokens) tokens else
     bind_p (match tokens [''while'']) (\<lambda>b. if b
       then while_loop_statement n (statement n tokens) tokens else
     bind_p (match tokens [''return'']) (\<lambda>b. if b
       then return_statement n tokens else
     let fallthrough =
           bind_p (match tokens ['';'']) (\<lambda>b. if b then return_p EmptyStatement
           else expression n tokens);
         declarations =
           bind_p (match_key tokens) (\<lambda>k. if k
           then bind_p (peek tokens) (\<lambda>t. if category t = IDENTIFIER
                then bind_p (match_next tokens [''='']) (\<lambda>b. if b
                     then variable_declaration n tokens else fallthrough)
                else fallthrough)
           else fallthrough)
     in bind_p (peek tokens) (\<lambda>t. if category t = IDENTIFIER
        then bind_p (match_next tokens [''='', ''+='', ''-='', ''*='', ''/='', ''%='']) (\<lambda>b. if b
             then variable_assignment n tokens else
             bind_p (match_next tokens [''('']) (\<lambda>b. if b
             then function_call n tokens else declarations))
        else declarations))))) st"

text \<open>
  \<open>function_declaration\<close>, with its parameter loop
  \<^verbatim>\<open>while (peek().value != ")") { types.push_back(advance().value); ids.push_back(advance().value); ... }\<close>
  carrying the two parallel vectors.
\<close>

primrec function_declaration_loop ::
  "nat \<Rightarrow> token list \<Rightarrow> string list \<times> string list \<Rightarrow> pstate \<Rightarrow> (string list \<times> string list) presult" where
  "function_declaration_loop 0 tokens args st = (Inl Out_of_fuel, st)"
| "function_declaration_loop (Suc n) tokens args st =
     bind_p (peek tokens) (\<lambda>t. if tvalue t \<noteq> '')''
     then bind_p (advance tokens) (\<lambda>type.
          bind_p (advance tokens) (\<lambda>id.
          bind_p (peek tokens) (\<lambda>t'.
          bind_p (if tvalue t' \<noteq> '')'' then consume tokens '','' (''Expected '' @ quoted '','')
                  else return_p t') (\<lambda>_.
          function_declaration_loop n tokens
            (fst args @ [tvalue type], snd args @ [tvalue id])))))
     else return_p args) st"

definition function_declaration :: "nat \<Rightarrow> token list \<Rightarrow> pstate \<Rightarrow> node presult" where
  "function_declaration n tokens =
     bind_p (previous tokens) (\<lambda>type.
     bind_p (bind_p (peek tokens) (\<lambda>t. if category t = IDENTIFIER then advance tokens
                                        else error ''Expected identifier'')) (\<lambda>identifier.
     bind_p (consume tokens ''('' (''Expected '' @ quoted ''('')) (\<lambda>_.
     bind_p (function_declaration_loop n tokens ([], [])) (\<lambda>args.
     bind_p (consume tokens '')'' (''Expected '' @ quoted '')'' @ '' after statement'')) (\<lambda>_.
     bind_p (statement n tokens) (\<lambda>s.
     return_p (FunctionDeclaration (tvalue type) (tvalue identifier) (fst args) (snd args) s)))))))"

text \<open>
  \<open>global_statement\<close>: \<open>match({"void"}) || match_key()\<close> evaluates \<open>match_key\<close> only when
  the \<open>match\<close> fails. The final \<open>throw\<close> is written out in the source and does not go
  through \<open>Parser::error\<close>, so it leaves the success flag as it is.
\<close>

definition global_statement :: "nat \<Rightarrow> token list \<Rightarrow> pstate \<Rightarrow> node presult" where
  "global_statement n tokens =
     (let unexpected = (\<lambda>st. (Inl (Runtime_error ''Unexpected global statement encountered.''), st))
      in bind_p (bind_p (match tokens [''void''])
                   (\<lambda>b. if b then return_p True else match_key tokens)) (\<lambda>b. if b
         then bind_p (peek tokens) (\<lambda>t. if category t = IDENTIFIER
              then bind_p (match_next tokens [''('']) (\<lambda>b. if b
                   then function_declaration n tokens else unexpected)
              else unexpected)
         else unexpected))"

primrec parse_loop :: "nat \<Rightarrow> token list \<Rightarrow> node list \<Rightarrow> pstate \<Rightarrow> node list presult" where
  "parse_loop 0 tokens statements st = (Inl Out_of_fuel, st)"
| "parse_loop (Suc n) tokens statements st =
     (if \<not> at_end tokens st
      then bind_p (global_statement n tokens)
             (\<lambda>s. parse_loop n tokens (statements @ [s])) st
      else (Inr statements, st))"

definition parse :: "nat \<Rightarrow> token list \<Rightarrow> pstate \<Rightarrow> node list presult" where
  "parse n tokens = parse_loop n tokens []"

text \<open>
  The constructor \<open>Parser::Parser\<close>: the cursor starts at the first token, the success
  flag is set, and \<open>parse\<close> runs. The result is the member \<open>ast\<close>, or the exception that
  left the constructor, together with the members as the run left them.
\<close>

definition Parser :: "nat \<Rightarrow> token list \<Rightarrow> node list presult" where
  "Parser n tokens = parse n tokens \<lparr>current = 0, success = True\<rparr>"

text \<open>The front end on a source text: \<open>Lexer\<close>, then \<open>Parser\<close> on its tokens.\<close>

definition parse_source :: "nat \<Rightarrow> string \<Rightarrow> lex_error + node list presult" where
  "parse_source n raw = (case Lexer_lex raw of Inl e \<Rightarrow> Inl e | Inr tokens \<Rightarrow> Inr (Parser n tokens))"

section \<open>Evaluation rules\<close>

lemmas lexer_defs = Lexer_lex_def char_at_def isspace_def isalpha_def isdigit_def
  is_keyword_def is_operator_def is_punctuator_def Lexer_keywords_def Lexer_operators_def
  Lexer_punctuators_def Let_def

lemmas cursor_defs = bind_p_def return_p_def at_end_def tokens_at_def peek_def previous_def
  next_token_def advance_def match_key_def error_def consume_def quoted_def type_names_def

lemmas expression_defs = primary_def remainder_def factor_def term_expr_def cast_def
  comparison_def equality_def

lemmas statement_defs = scope_declaration_def conditional_statement_def
  while_loop_statement_def return_statement_def variable_declaration_def
  variable_assignment_def function_call_def function_declaration_def global_statement_def
  parse_def Parser_def

section \<open>The lexer on string literals and numbers\<close>

text \<open>
  The string loop stops at the end of the text when no closing quote follows, and returns
  everything after the opening quote.
\<close>

lemma extend_while_no_quote:
  "CHR 0x22 \<notin> set (drop (Suc i) raw) \<Longrightarrow> i < length raw \<Longrightarrow>
   extend_while (\<lambda>v d. d \<noteq> CHR 0x22) raw i v = (length raw - 1, v @ drop (Suc i) raw)"
proof (induction "length raw - i" arbitrary: i v)
  case 0
  then show ?case by simp
next
  case (Suc k)
  show ?case
  proof (cases "Suc i < length raw")
    case True
    then have d: "drop (Suc i) raw = raw ! Suc i # drop (Suc (Suc i)) raw"
      by (simp add: Cons_nth_drop_Suc)
    with Suc.prems have ne: "raw ! Suc i \<noteq> CHR 0x22"
      and rest: "CHR 0x22 \<notin> set (drop (Suc (Suc i)) raw)"
      by auto
    from Suc.hyps(2) True have k: "k = length raw - Suc i" by simp
    have "extend_while (\<lambda>v d. d \<noteq> CHR 0x22) raw (Suc i) (v @ [raw ! Suc i])
          = (length raw - 1, (v @ [raw ! Suc i]) @ drop (Suc (Suc i)) raw)"
      using Suc.hyps(1) [OF k rest True] .
    with True ne d show ?thesis
      by (subst extend_while.simps) (simp add: char_at_def)
  next
    case False
    with Suc.prems have "Suc i = length raw" by simp
    then show ?thesis
      by (subst extend_while.simps) simp
  qed
qed

text \<open>
  So a text that opens a string literal and never closes it lexes without an error, to one
  \<open>STRING_LITERAL\<close> token holding the rest of the text.
\<close>

lemma lex_unterminated_string:
  assumes "CHR 0x22 \<notin> set s"
  shows "Lexer_lex (CHR 0x22 # s) = Inr [\<lparr>category = STRING_LITERAL, tvalue = s\<rparr>]"
proof -
  have e: "extend_while (\<lambda>v d. d \<noteq> CHR 0x22) (CHR 0x22 # s) 0 [] = (length s, s)"
    using extend_while_no_quote [of 0 "CHR 0x22 # s" "[]"] assms by simp
  have stop: "lex_from (CHR 0x22 # s) (Suc (Suc (length s))) ts = Inr ts" for ts
    by (subst lex_from.simps) simp
  show ?thesis
    unfolding Lexer_lex_def
    by (subst lex_from.simps) (simp add: e stop lexer_defs)
qed

text \<open>
  Claim C1 says that a text in which a string literal opened by a double quote reaches the
  end of input unclosed fails to lex, and that no \<open>STRING_LITERAL\<close> token is emitted for
  it. The code does the opposite: on the three characters \<open>"ab\<close> the lexer returns
  normally with the single token \<open>STRING_LITERAL ab\<close>.
\<close>

theorem lex_unterminated_string_emits_token:
  "Lexer_lex (CHR 0x22 # ''ab'') = Inr [\<lparr>category = STRING_LITERAL, tvalue = ''ab''\<rparr>]"
  by (rule lex_unterminated_string) simp

text \<open>The inner loops never move the index back.\<close>

lemma extend_while_ge: "extend_while P raw i v = (j, w) \<Longrightarrow> i \<le> j"
proof (induction P raw i v rule: extend_while.induct)
  case (1 P raw i v)
  show ?case
  proof (cases "i + 1 < length raw \<and> P v (char_at raw (i + 1))")
    case True
    with "1.prems" have "extend_while P raw (i + 1) (v @ [char_at raw (i + 1)]) = (j, w)"
      by (subst (asm) extend_while.simps) simp
    with "1.IH" True have "i + 1 \<le> j" by blast
    then show ?thesis by simp
  next
    case False
    with "1.prems" show ?thesis by (subst (asm) extend_while.simps) auto
  qed
qed

text \<open>
  The tokens already pushed play no part in what the loop does next: the result from index
  \<open>i\<close> with the tokens \<open>toks\<close> is the result from \<open>i\<close> with no tokens, behind \<open>toks\<close>, or
  the same error.
\<close>

lemma lex_from_tokens_prefix:
  "lex_from raw i toks = map_sum id ((@) toks) (lex_from raw i [])"
proof (induction "length raw - i" arbitrary: i toks rule: less_induct)
  case less
  show ?case
  proof (cases "i < length raw")
    case False
    then show ?thesis
      by (subst lex_from.simps [of raw i toks], subst lex_from.simps [of raw i "[]"]) simp
  next
    case True
    have H0: "lex_from raw k ts = map_sum id ((@) ts) (lex_from raw k [])" if "i < k" for k ts
      using less [of k ts] that True by simp
    have H: "lex_from raw (Suc k) (ts @ [t]) = map_sum id ((@) ts) (lex_from raw (Suc k) [t])"
      if "i \<le> k" for k ts t
    proof -
      have 1: "lex_from raw (Suc k) (ts @ [t]) = map_sum id ((@) (ts @ [t])) (lex_from raw (Suc k) [])"
        using that by (intro H0) simp
      have 2: "lex_from raw (Suc k) [t] = map_sum id ((@) [t]) (lex_from raw (Suc k) [])"
        using that by (intro H0) simp
      show ?thesis
        by (cases "lex_from raw (Suc k) []") (simp_all add: 1 2)
    qed
    show ?thesis
    proof (cases "isspace (char_at raw i)")
      case sp: True
      have "lex_from raw (Suc i) toks = map_sum id ((@) toks) (lex_from raw (Suc i) [])"
        by (intro H0) simp
      with True sp show ?thesis
        by (subst lex_from.simps [of raw i toks], subst lex_from.simps [of raw i "[]"]) simp
    next
      case nsp: False
      let ?c = "char_at raw i"
      consider (alpha) "isalpha ?c"
        | (digit) "\<not> isalpha ?c" "isdigit ?c"
        | (operator) "\<not> isalpha ?c" "\<not> isdigit ?c" "is_operator [?c]"
        | (punctuator) "\<not> isalpha ?c" "\<not> isdigit ?c" "\<not> is_operator [?c]" "is_punctuator [?c]"
        | (quote) "\<not> isalpha ?c" "\<not> isdigit ?c" "\<not> is_operator [?c]" "\<not> is_punctuator [?c]"
            "?c = CHR 0x22"
        | (unknown) "\<not> isalpha ?c" "\<not> isdigit ?c" "\<not> is_operator [?c]" "\<not> is_punctuator [?c]"
            "?c \<noteq> CHR 0x22"
        by blast
      then show ?thesis
      proof cases
        case alpha
        obtain j v where e: "extend_while (\<lambda>v d. isalpha d \<or> isdigit d) raw i [?c] = (j, v)"
          by fastforce
        have ij: "i \<le> j" using e by (rule extend_while_ge)
        show ?thesis
          by (subst lex_from.simps [of raw i toks], subst lex_from.simps [of raw i "[]"])
            (simp add: True nsp alpha e Let_def H [OF ij])
      next
        case digit
        obtain j v where e: "extend_while (\<lambda>v d. isdigit d) raw i [?c] = (j, v)"
          by fastforce
        have ij: "i \<le> j" using e by (rule extend_while_ge)
        show ?thesis
        proof (cases "char_at raw (Suc j) = CHR ''.'' \<and> isdigit (char_at raw (Suc (Suc j)))")
          case float: True
          obtain k w where f: "extend_while (\<lambda>v d. isdigit d) raw (Suc j) (v @ ''.'') = (k, w)"
            by fastforce
          have ik: "i \<le> k" using extend_while_ge [OF f] ij by simp
          show ?thesis
            by (subst lex_from.simps [of raw i toks], subst lex_from.simps [of raw i "[]"])
              (simp add: True nsp digit e f float Let_def H [OF ik])
        next
          case integer: False
          then show ?thesis
            by (subst lex_from.simps [of raw i toks], subst lex_from.simps [of raw i "[]"])
              (auto simp add: True nsp digit e Let_def H [OF ij])
        qed
      next
        case operator
        obtain j v where e: "extend_while (\<lambda>v d. is_operator (v @ [d])) raw i [?c] = (j, v)"
          by fastforce
        have ij: "i \<le> j" using e by (rule extend_while_ge)
        show ?thesis
          by (subst lex_from.simps [of raw i toks], subst lex_from.simps [of raw i "[]"])
            (simp add: True nsp operator e Let_def H [OF ij])
      next
        case punctuator
        obtain j v where e: "extend_while (\<lambda>v d. is_punctuator (v @ [d])) raw i [?c] = (j, v)"
          by fastforce
        have ij: "i \<le> j" using e by (rule extend_while_ge)
        show ?thesis
          by (subst lex_from.simps [of raw i toks], subst lex_from.simps [of raw i "[]"])
            (simp add: True nsp punctuator e Let_def H [OF ij])
      next
        case quote
        obtain j v where e: "extend_while (\<lambda>v d. d \<noteq> CHR 0x22) raw i [] = (j, v)"
          by fastforce
        have ij: "i \<le> Suc j" using extend_while_ge [OF e] by simp
        have cls: "\<not> isspace (CHR 0x22)" "\<not> isalpha (CHR 0x22)" "\<not> isdigit (CHR 0x22)"
          "\<not> is_operator [CHR 0x22]" "\<not> is_punctuator [CHR 0x22]"
          by (simp_all add: isspace_def isalpha_def isdigit_def is_operator_def
              Lexer_operators_def is_punctuator_def Lexer_punctuators_def)
        show ?thesis
          by (subst lex_from.simps [of raw i toks], subst lex_from.simps [of raw i "[]"])
            (simp add: True quote(5) cls e Let_def H [OF ij])
      next
        case unknown
        show ?thesis
          by (subst lex_from.simps [of raw i toks], subst lex_from.simps [of raw i "[]"])
            (simp add: True nsp unknown Let_def)
      qed
    qed
  qed
qed


text \<open>The digit loop runs exactly over a run of digits that no digit follows.\<close>

lemma char_at_append: "char_at (pre @ xs) (length pre + k) = char_at xs k"
  by (simp add: char_at_def nth_append)

lemma isdigit_not_other:
  "isdigit c \<Longrightarrow> \<not> isspace c \<and> \<not> isalpha c"
  by (auto simp add: isdigit_def isspace_def isalpha_def)

lemma extend_while_digits:
  "list_all isdigit ds \<Longrightarrow> \<not> isdigit (char_at rest 0) \<Longrightarrow> raw = pre @ ds @ rest \<Longrightarrow>
   length pre = Suc i \<Longrightarrow>
   extend_while (\<lambda>v d. isdigit d) raw i v = (i + length ds, v @ ds)"
proof (induction ds arbitrary: pre i v)
  case Nil
  have "char_at raw (i + 1) = char_at rest 0"
    using char_at_append [of pre rest 0] Nil.prems(3,4) by simp
  with Nil.prems(2) show ?case
    by (subst extend_while.simps) simp
next
  case (Cons d ds)
  have c: "char_at raw (i + 1) = d"
    using char_at_append [of pre "d # ds @ rest" 0] Cons.prems(3,4) by (simp add: char_at_def)
  have lt: "i + 1 < length raw"
    using Cons.prems(3,4) by simp
  have d: "isdigit d" and ds: "list_all isdigit ds"
    using Cons.prems(1) by simp_all
  have "extend_while (\<lambda>v d. isdigit d) raw (Suc i) (v @ [d]) = (Suc i + length ds, (v @ [d]) @ ds)"
    by (rule Cons.IH [OF ds Cons.prems(2), of "pre @ [d]"]) (simp_all add: Cons.prems(3,4))
  with c lt d show ?case
    by (subst extend_while.simps) simp
qed

text \<open>
  A number at the start of the text: the digits are read, and the dot after them is taken
  into the token only if the character after the dot is a digit.
\<close>

lemma lex_from_digits:
  assumes d: "isdigit d" and ds: "list_all isdigit ds" and rest: "\<not> isdigit (char_at rest 0)"
    and raw: "raw = d # ds @ rest"
  shows "lex_from raw 0 [] =
    (if char_at rest 0 = CHR ''.'' \<and> isdigit (char_at rest (Suc 0))
     then (case extend_while (\<lambda>v d. isdigit d) raw (Suc (length ds)) (d # ds @ ''.'') of
             (k, w) \<Rightarrow> lex_from raw (Suc k) [\<lparr>category = FLOAT_LITERAL, tvalue = w\<rparr>])
     else lex_from raw (Suc (length ds)) [\<lparr>category = INTEGER_LITERAL, tvalue = d # ds\<rparr>])"
proof -
  have e: "extend_while (\<lambda>v d. isdigit d) raw 0 [d] = (length ds, d # ds)"
    using extend_while_digits [OF ds rest, of raw "[d]" 0 "[d]"] raw by simp
  have len: "0 < length raw" by (simp add: raw)
  have c0: "char_at raw 0 = d" by (simp add: raw char_at_def)
  have c1: "char_at raw (Suc (length ds)) = char_at rest 0"
    using char_at_append [of "d # ds" rest 0] raw by simp
  have c2: "char_at raw (Suc (Suc (length ds))) = char_at rest (Suc 0)"
    using char_at_append [of "d # ds" rest 1] raw by simp
  show ?thesis
    using isdigit_not_other [OF d] d len
    by (subst lex_from.simps) (simp add: c0 e c1 c2 Let_def)
qed

text \<open>A dot that no digit follows is a punctuator of its own.\<close>

lemma lex_from_dot:
  assumes c: "char_at raw i = CHR ''.''" and i: "i < length raw"
  shows "lex_from raw i toks = lex_from raw (Suc i) (toks @ [\<lparr>category = PUNCTUATOR, tvalue = ''.''\<rparr>])"
proof -
  have e: "extend_while (\<lambda>v d. is_punctuator (v @ [d])) raw i ''.'' = (i, ''.'')"
    by (subst extend_while.simps) (simp add: is_punctuator_def Lexer_punctuators_def)
  have cls: "\<not> isspace (CHR ''.'')" "\<not> isalpha (CHR ''.'')" "\<not> isdigit (CHR ''.'')"
    "\<not> is_operator ''.''" "is_punctuator ''.''"
    by (simp_all add: isspace_def isalpha_def isdigit_def is_operator_def Lexer_operators_def
        is_punctuator_def Lexer_punctuators_def)
  show ?thesis
    using i
    by (subst lex_from.simps) (simp add: c e Let_def cls)
qed

lemma lex_numeric_texts:
  "Lexer_lex ''12'' = Inr [\<lparr>category = INTEGER_LITERAL, tvalue = ''12''\<rparr>]"
  "Lexer_lex ''12.5'' = Inr [\<lparr>category = FLOAT_LITERAL, tvalue = ''12.5''\<rparr>]"
  "Lexer_lex ''12.'' = Inr [\<lparr>category = INTEGER_LITERAL, tvalue = ''12''\<rparr>, \<lparr>category = PUNCTUATOR, tvalue = ''.''\<rparr>]"
  by (simp_all add: lex_from.simps extend_while.simps lexer_defs)

lemma lex_number_with_fraction:
  assumes d: "isdigit d" and ds: "list_all isdigit ds"
    and f: "isdigit f" and fs: "list_all isdigit fs"
    and rest: "\<not> isdigit (char_at rest 0)"
  shows "Lexer_lex (d # ds @ CHR ''.'' # f # fs @ rest)
           = map_sum id ((@) [\<lparr>category = FLOAT_LITERAL, tvalue = d # ds @ CHR ''.'' # f # fs\<rparr>])
               (lex_from (d # ds @ CHR ''.'' # f # fs @ rest) (length ds + length fs + 3) [])"
proof -
  let ?raw = "d # ds @ CHR ''.'' # f # fs @ rest"
  have nd: "\<not> isdigit (CHR ''.'')" by (simp add: isdigit_def)
  have r: "\<not> isdigit (char_at (CHR ''.'' # f # fs @ rest) 0)" by (simp add: char_at_def nd)
  have c0: "char_at (CHR ''.'' # f # fs @ rest) 0 = CHR ''.''" by (simp add: char_at_def)
  have c1: "char_at (CHR ''.'' # f # fs @ rest) (Suc 0) = f" by (simp add: char_at_def)
  have ffs: "list_all isdigit (f # fs)" using f fs by simp
  have e: "extend_while (\<lambda>v d. isdigit d) ?raw (Suc (length ds)) (d # ds @ ''.'')
            = (Suc (length ds) + length (f # fs), (d # ds @ ''.'') @ f # fs)"
    by (rule extend_while_digits [OF ffs rest, of _ "d # ds @ ''.''"]) simp_all
  have "lex_from ?raw 0 []
          = lex_from ?raw (length ds + length fs + 3)
              [\<lparr>category = FLOAT_LITERAL, tvalue = d # ds @ CHR ''.'' # f # fs\<rparr>]"
    using f by (simp add: lex_from_digits [OF d ds r refl] c0 c1 e numeral_eq_Suc)
  then show ?thesis
    unfolding Lexer_lex_def by (simp add: lex_from_tokens_prefix [symmetric])
qed

lemma lex_number_then_dot:
  assumes d: "isdigit d" and ds: "list_all isdigit ds"
    and rest: "\<not> isdigit (char_at rest 0)"
  shows "Lexer_lex (d # ds @ CHR ''.'' # rest)
           = map_sum id ((@) [\<lparr>category = INTEGER_LITERAL, tvalue = d # ds\<rparr>, \<lparr>category = PUNCTUATOR, tvalue = ''.''\<rparr>])
               (lex_from (d # ds @ CHR ''.'' # rest) (length ds + 2) [])"
proof -
  have nd: "\<not> isdigit (CHR ''.'')" by (simp add: isdigit_def)
  have r: "\<not> isdigit (char_at (CHR ''.'' # rest) 0)" by (simp add: char_at_def nd)
  have c: "char_at (d # ds @ CHR ''.'' # rest) (Suc (length ds)) = CHR ''.''"
    using char_at_append [of "d # ds" "CHR ''.'' # rest" 0] by (simp add: char_at_def)
  have c1: "char_at (CHR ''.'' # rest) (Suc 0) = char_at rest 0"
    using char_at_append [of "''.''" rest 0] by simp
  have "lex_from (d # ds @ CHR ''.'' # rest) 0 []
          = lex_from (d # ds @ CHR ''.'' # rest) (length ds + 2)
              [\<lparr>category = INTEGER_LITERAL, tvalue = d # ds\<rparr>, \<lparr>category = PUNCTUATOR, tvalue = ''.''\<rparr>]"
    using rest by (simp add: lex_from_digits [OF d ds r refl] c1 lex_from_dot [OF c])
  then show ?thesis
    unfolding Lexer_lex_def by (simp add: lex_from_tokens_prefix [symmetric])
qed

lemma lex_number_without_dot:
  assumes d: "isdigit d" and ds: "list_all isdigit ds"
    and rest: "\<not> isdigit (char_at rest 0)" and nodot: "char_at rest 0 \<noteq> CHR ''.''"
  shows "Lexer_lex (d # ds @ rest)
           = map_sum id ((@) [\<lparr>category = INTEGER_LITERAL, tvalue = d # ds\<rparr>])
               (lex_from (d # ds @ rest) (length ds + 1) [])"
proof -
  have "lex_from (d # ds @ rest) 0 []
          = lex_from (d # ds @ rest) (length ds + 1) [\<lparr>category = INTEGER_LITERAL, tvalue = d # ds\<rparr>]"
    using nodot by (simp add: lex_from_digits [OF d ds rest refl])
  then show ?thesis
    unfolding Lexer_lex_def by (simp add: lex_from_tokens_prefix [symmetric])
qed

text \<open>
  Claim C9: the text \<open>12\<close> lexes to one \<open>INTEGER_LITERAL\<close> token \<open>12\<close>, the text \<open>12.5\<close> to
  one \<open>FLOAT_LITERAL\<close> token \<open>12.5\<close>, and the text \<open>12.\<close> to the \<open>INTEGER_LITERAL\<close> token
  \<open>12\<close> followed by the \<open>PUNCTUATOR\<close> token of the dot; the dot is taken into the number
  only when a digit follows it at once. The rule is stated for every text that starts with
  a run of digits \<open>d # ds\<close>. When a dot and a run of digits \<open>f # fs\<close> follow, the first token
  is the \<open>FLOAT_LITERAL\<close> of all of it. When a dot follows and then anything that is not a
  digit (or nothing), the first two tokens are the \<open>INTEGER_LITERAL\<close> and the dot. When
  no dot follows, the first token is the \<open>INTEGER_LITERAL\<close>. In each case the tokens after
  them are those of the rest of the text (or its error), lexed from the index given.
\<close>

theorem lex_numeric_boundary:
  assumes "isdigit d" and "list_all isdigit ds"
    and "isdigit f" and "list_all isdigit fs"
    and "\<not> isdigit (char_at rest 0)"
  shows "Lexer_lex ''12'' = Inr [\<lparr>category = INTEGER_LITERAL, tvalue = ''12''\<rparr>] \<and>
    Lexer_lex ''12.5'' = Inr [\<lparr>category = FLOAT_LITERAL, tvalue = ''12.5''\<rparr>] \<and>
    Lexer_lex ''12.'' = Inr [\<lparr>category = INTEGER_LITERAL, tvalue = ''12''\<rparr>, \<lparr>category = PUNCTUATOR, tvalue = ''.''\<rparr>] \<and>
    Lexer_lex (d # ds @ CHR ''.'' # f # fs @ rest)
      = map_sum id ((@) [\<lparr>category = FLOAT_LITERAL, tvalue = d # ds @ CHR ''.'' # f # fs\<rparr>])
          (lex_from (d # ds @ CHR ''.'' # f # fs @ rest) (length ds + length fs + 3) []) \<and>
    Lexer_lex (d # ds @ CHR ''.'' # rest)
      = map_sum id ((@) [\<lparr>category = INTEGER_LITERAL, tvalue = d # ds\<rparr>, \<lparr>category = PUNCTUATOR, tvalue = ''.''\<rparr>])
          (lex_from (d # ds @ CHR ''.'' # rest) (length ds + 2) []) \<and>
    (char_at rest 0 \<noteq> CHR ''.'' \<longrightarrow>
       Lexer_lex (d # ds @ rest)
         = map_sum id ((@) [\<lparr>category = INTEGER_LITERAL, tvalue = d # ds\<rparr>])
             (lex_from (d # ds @ rest) (length ds + 1) []))"
  using lex_numeric_texts lex_number_with_fraction [OF assms]
    lex_number_then_dot [OF assms(1,2,5)] lex_number_without_dot [OF assms(1,2,5)]
  by blast

theorem lex_numeric_boundary_witness:
  "isdigit (CHR ''1'') \<and> list_all isdigit ''2'' \<and> isdigit (CHR ''5'') \<and> list_all isdigit []
     \<and> \<not> isdigit (char_at ''x'' 0) \<and>
   Lexer_lex ''12.5x'' = Inr [\<lparr>category = FLOAT_LITERAL, tvalue = ''12.5''\<rparr>, \<lparr>category = IDENTIFIER, tvalue = ''x''\<rparr>] \<and>
   Lexer_lex ''12.x'' = Inr [\<lparr>category = INTEGER_LITERAL, tvalue = ''12''\<rparr>, \<lparr>category = PUNCTUATOR, tvalue = ''.''\<rparr>, \<lparr>category = IDENTIFIER, tvalue = ''x''\<rparr>] \<and>
   Lexer_lex ''12x'' = Inr [\<lparr>category = INTEGER_LITERAL, tvalue = ''12''\<rparr>, \<lparr>category = IDENTIFIER, tvalue = ''x''\<rparr>]"
proof -
  have h: "isdigit (CHR ''1'')" "list_all isdigit ''2''" "isdigit (CHR ''5'')"
    "list_all isdigit []" "\<not> isdigit (char_at ''x'' 0)"
    by (simp_all add: isdigit_def char_at_def)
  have nodot: "char_at ''x'' 0 \<noteq> CHR ''.''"
    by (simp add: char_at_def)
  have r1: "lex_from ''12.5x'' 4 [] = Inr [\<lparr>category = IDENTIFIER, tvalue = ''x''\<rparr>]"
    and r2: "lex_from ''12.x'' (Suc (Suc (Suc 0))) [] = Inr [\<lparr>category = IDENTIFIER, tvalue = ''x''\<rparr>]"
    and r3: "lex_from ''12x'' (Suc (Suc 0)) [] = Inr [\<lparr>category = IDENTIFIER, tvalue = ''x''\<rparr>]"
    by (simp_all add: lex_from.simps extend_while.simps lexer_defs)
  from lex_numeric_boundary [OF h] nodot r1 r2 r3 h
  show ?thesis by simp
qed

section \<open>The empty program\<close>

text \<open>
  Claim C10: the empty text lexes to the empty token sequence, and the parser on the empty
  token sequence returns the empty list of top-level nodes with the success flag set. (The
  parser's loop needs one unit of the recursion bound to find the end of the tokens.)
\<close>

theorem empty_input_lexes_and_parses:
  "Lexer_lex [] = Inr [] \<and>
   Parser (Suc n) [] = (Inr [], \<lparr>current = 0, success = True\<rparr>) \<and>
   parse_source (Suc n) [] = Inr (Inr [], \<lparr>current = 0, success = True\<rparr>)"
  by (simp add: parse_source_def Lexer_lex_def lex_from.simps Parser_def parse_def at_end_def)

section \<open>Reads past the end of the token vector\<close>

text \<open>
  Claim C3 says that \<open>next\<close> returns the token after the current one, or an end-of-input
  sentinel, and never reads outside the token sequence, in particular with the cursor on
  the last token. The code tests \<open>at_end\<close>, which is false on the last token, and then
  reads \<open>tokens[current + 1]\<close>, one past the end; with the cursor past the end it reads
  \<open>tokens[current]\<close> through \<open>peek\<close>, again outside the vector. There is no sentinel.
\<close>

theorem next_token_on_last_token_out_of_bounds:
  "next_token (ts @ [t]) \<lparr>current = length ts, success = b\<rparr>
     = (Inl Out_of_bounds, \<lparr>current = length ts, success = b\<rparr>) \<and>
   next_token ts \<lparr>current = length ts + k, success = b\<rparr>
     = (Inl Out_of_bounds, \<lparr>current = length ts + k, success = b\<rparr>)"
  by (simp add: next_token_def at_end_def tokens_at_def peek_def)

lemma lex_unbalanced_program:
  "Lexer_lex ''void f() { if (true) { return; }'' = Inr
     [\<lparr>category = IDENTIFIER, tvalue = ''void''\<rparr>,
      \<lparr>category = IDENTIFIER, tvalue = ''f''\<rparr>,
      \<lparr>category = PUNCTUATOR, tvalue = ''(''\<rparr>,
      \<lparr>category = PUNCTUATOR, tvalue = '')''\<rparr>,
      \<lparr>category = PUNCTUATOR, tvalue = ''{''\<rparr>,
      \<lparr>category = KEYWORD, tvalue = ''if''\<rparr>,
      \<lparr>category = PUNCTUATOR, tvalue = ''(''\<rparr>,
      \<lparr>category = BOOLEAN_LITERAL, tvalue = ''true''\<rparr>,
      \<lparr>category = PUNCTUATOR, tvalue = '')''\<rparr>,
      \<lparr>category = PUNCTUATOR, tvalue = ''{''\<rparr>,
      \<lparr>category = KEYWORD, tvalue = ''return''\<rparr>,
      \<lparr>category = PUNCTUATOR, tvalue = '';''\<rparr>,
      \<lparr>category = PUNCTUATOR, tvalue = ''}''\<rparr>]"
  by (simp add: lex_from.simps extend_while.simps lexer_defs)

text \<open>
  Claim C2 says that the program \<open>void f() { if (true) { return; }\<close>, whose last brace is
  missing, fails with a parse error reported by a bounds-respecting \<open>consume\<close> or \<open>peek\<close>,
  without reading out of bounds. In the code the inner block ends at the thirteenth and
  last token; \<open>conditional_statement\<close> then evaluates \<open>peek().value == "else"\<close> with the
  cursor at 13, which reads \<open>tokens[13]\<close> outside the vector. No parse error is raised and
  the success flag is still set at that point.
\<close>

theorem parse_unbalanced_brace_reads_out_of_bounds:
  "parse_source (n + 6) ''void f() { if (true) { return; }''
     = Inr (Inl Out_of_bounds, \<lparr>current = 13, success = True\<rparr>)"
  unfolding parse_source_def lex_unbalanced_program
  by (simp add: cursor_defs expression_defs statement_defs Let_def numeral_eq_Suc)

section \<open>Statements at the top level\<close>

text \<open>
  Claim C4 says that the program \<open>x = 5;\<close> fails to parse and that the success flag is
  false afterwards. The parse does fail, in \<open>global_statement\<close>; but that function throws
  its \<open>std::runtime_error\<close> itself instead of calling \<open>Parser::error\<close>, so the flag, set by
  the constructor, is never cleared.
\<close>

theorem top_level_assignment_keeps_success_flag:
  "parse_source (n + 1) ''x = 5;''
     = Inr (Inl (Runtime_error ''Unexpected global statement encountered.''),
            \<lparr>current = 1, success = True\<rparr>)"
  unfolding parse_source_def
  by (simp add: lex_from.simps extend_while.simps lexer_defs cursor_defs statement_defs)

section \<open>Declarations inside a function body\<close>

lemma parse_let_declaration:
  "parse_source (n + 6) ''void f() { let x = 5; }''
     = Inr (Inl (Runtime_error (''Unexpected token '' @ quoted ''let'')),
            \<lparr>current = 5, success = False\<rparr>)"
  unfolding parse_source_def
  by (simp add: lex_from.simps extend_while.simps lexer_defs cursor_defs expression_defs
      statement_defs numeral_eq_Suc)

lemma parse_identifier_typed_declaration:
  "parse_source (n + 6) ''void f() { int32 x = 5; }''
     = Inr (Inr [FunctionDeclaration ''void'' ''f'' [] []
                  (ScopeDeclaration
                     [VariableDeclaration ''int32'' ''x'' (IntegerLiteral ''5'')])],
            \<lparr>current = 11, success = True\<rparr>)"
  unfolding parse_source_def
  by (simp add: lex_from.simps extend_while.simps lexer_defs cursor_defs expression_defs
      statement_defs numeral_eq_Suc)

lemma match_key_rejects_let:
  "match_key (ts @ \<lparr>category = KEYWORD, tvalue = ''let''\<rparr> # rest)
       \<lparr>current = length ts, success = b\<rparr>
     = (Inr False, \<lparr>current = length ts, success = b\<rparr>)"
  by (simp add: cursor_defs)

text \<open>
  Claim C5: as a statement of a function body, \<open>let x = 5;\<close> fails to parse, and
  \<open>int32 x = 5;\<close> parses to a \<open>VariableDeclaration\<close> whose type name is the identifier
  \<open>int32\<close>. The lookahead \<open>match_key\<close> answers false on the keyword token \<open>let\<close>, wherever
  it stands, and leaves the cursor in place; the statement then falls through to
  \<open>primary\<close>, which raises the error (through \<open>Parser::error\<close>, so the flag is cleared).
\<close>

theorem let_declaration_rejected_identifier_type_accepted:
  "parse_source (n + 6) ''void f() { let x = 5; }''
     = Inr (Inl (Runtime_error (''Unexpected token '' @ quoted ''let'')),
            \<lparr>current = 5, success = False\<rparr>) \<and>
   parse_source (n + 6) ''void f() { int32 x = 5; }''
     = Inr (Inr [FunctionDeclaration ''void'' ''f'' [] []
                  (ScopeDeclaration
                     [VariableDeclaration ''int32'' ''x'' (IntegerLiteral ''5'')])],
            \<lparr>current = 11, success = True\<rparr>) \<and>
   match_key (ts @ \<lparr>category = KEYWORD, tvalue = ''let''\<rparr> # rest)
       \<lparr>current = length ts, success = b\<rparr>
     = (Inr False, \<lparr>current = length ts, success = b\<rparr>)"
  using parse_let_declaration parse_identifier_typed_declaration match_key_rejects_let
  by blast

section \<open>Precedence of the expression cascade\<close>

lemma lex_arithmetic:
  "Lexer_lex ''1 + 2 * 3'' = Inr
     [\<lparr>category = INTEGER_LITERAL, tvalue = ''1''\<rparr>,
      \<lparr>category = OPERATOR, tvalue = ''+''\<rparr>,
      \<lparr>category = INTEGER_LITERAL, tvalue = ''2''\<rparr>,
      \<lparr>category = OPERATOR, tvalue = ''*''\<rparr>,
      \<lparr>category = INTEGER_LITERAL, tvalue = ''3''\<rparr>]"
  by (simp add: lex_from.simps extend_while.simps lexer_defs)

lemma expression_arithmetic:
  assumes "tvalue t \<notin> set [''%'', ''*'', ''/'', ''+'', ''-'', ''as'', ''<'', ''<='', ''>'', ''>='',
                            ''=='', ''!='']"
  shows "expression (n + 4)
           ([\<lparr>category = INTEGER_LITERAL, tvalue = ''1''\<rparr>,
             \<lparr>category = OPERATOR, tvalue = ''+''\<rparr>,
             \<lparr>category = INTEGER_LITERAL, tvalue = ''2''\<rparr>,
             \<lparr>category = OPERATOR, tvalue = ''*''\<rparr>,
             \<lparr>category = INTEGER_LITERAL, tvalue = ''3''\<rparr>] @ t # rest)
           \<lparr>current = 0, success = b\<rparr>
         = (Inr (BinaryOperation (IntegerLiteral ''1'') ''+''
                   (BinaryOperation (IntegerLiteral ''2'') ''*'' (IntegerLiteral ''3''))),
            \<lparr>current = 5, success = b\<rparr>)"
  using assms
  by (simp add: cursor_defs expression_defs numeral_eq_Suc)

text \<open>
  Claim C6: the expression \<open>1 + 2 * 3\<close> parses to
  \<open>BinaryOperation(+, 1, BinaryOperation( *, 2, 3))\<close>, and not to
  \<open>BinaryOperation( *, BinaryOperation(+, 1, 2), 3)\<close>. The parser decides that an expression
  is over by looking at the token after it, so the statement is about the tokens of the
  text followed by any token \<open>t\<close> that is not an operator of the cascade (\<open>;\<close>, \<open>)\<close>,
  \<open>,\<close>, \<open>}\<close>, ...) and any further tokens.
\<close>

theorem multiplication_binds_tighter_than_addition:
  assumes "tvalue t \<notin> set [''%'', ''*'', ''/'', ''+'', ''-'', ''as'', ''<'', ''<='', ''>'', ''>='',
                            ''=='', ''!='']"
  shows "\<exists>tokens. Lexer_lex ''1 + 2 * 3'' = Inr tokens \<and>
           expression (n + 4) (tokens @ t # rest) \<lparr>current = 0, success = b\<rparr>
             = (Inr (BinaryOperation (IntegerLiteral ''1'') ''+''
                       (BinaryOperation (IntegerLiteral ''2'') ''*'' (IntegerLiteral ''3''))),
                \<lparr>current = 5, success = b\<rparr>) \<and>
           fst (expression (n + 4) (tokens @ t # rest) \<lparr>current = 0, success = b\<rparr>)
             \<noteq> Inr (BinaryOperation
                       (BinaryOperation (IntegerLiteral ''1'') ''+'' (IntegerLiteral ''2''))
                       ''*'' (IntegerLiteral ''3''))"
  using lex_arithmetic expression_arithmetic [OF assms, of n rest b]
  by simp

theorem multiplication_binds_tighter_than_addition_witness:
  "tvalue \<lparr>category = PUNCTUATOR, tvalue = '';''\<rparr>
     \<notin> set [''%'', ''*'', ''/'', ''+'', ''-'', ''as'', ''<'', ''<='', ''>'', ''>='', ''=='', ''!=''] \<and>
   (\<exists>tokens. Lexer_lex ''1 + 2 * 3'' = Inr tokens \<and>
      expression 4 (tokens @ [\<lparr>category = PUNCTUATOR, tvalue = '';''\<rparr>])
          \<lparr>current = 0, success = True\<rparr>
        = (Inr (BinaryOperation (IntegerLiteral ''1'') ''+''
                  (BinaryOperation (IntegerLiteral ''2'') ''*'' (IntegerLiteral ''3''))),
           \<lparr>current = 5, success = True\<rparr>))"
proof -
  have h: "tvalue \<lparr>category = PUNCTUATOR, tvalue = '';''\<rparr>
     \<notin> set [''%'', ''*'', ''/'', ''+'', ''-'', ''as'', ''<'', ''<='', ''>'', ''>='', ''=='', ''!='']"
    by simp
  from multiplication_binds_tighter_than_addition [OF h, of 0 "[]" True] h
  show ?thesis by auto
qed
text \<open>
  With nothing after the expression the same parse leaves the token vector: after the last
  operand, \<open>remainder\<close> tests \<open>match({"%"})\<close>, whose \<open>peek\<close> reads \<open>tokens[5]\<close>. Inside a
  program the expression is followed by a token, as in the function below.
\<close>

lemma expression_arithmetic_alone:
  "expression (n + 4)
     [\<lparr>category = INTEGER_LITERAL, tvalue = ''1''\<rparr>,
      \<lparr>category = OPERATOR, tvalue = ''+''\<rparr>,
      \<lparr>category = INTEGER_LITERAL, tvalue = ''2''\<rparr>,
      \<lparr>category = OPERATOR, tvalue = ''*''\<rparr>,
      \<lparr>category = INTEGER_LITERAL, tvalue = ''3''\<rparr>]
     \<lparr>current = 0, success = b\<rparr>
   = (Inl Out_of_bounds, \<lparr>current = 5, success = b\<rparr>)"
  by (simp add: cursor_defs expression_defs numeral_eq_Suc)

lemma parse_return_arithmetic:
  "parse_source (n + 7) ''void f() { return 1 + 2 * 3; }''
     = Inr (Inr [FunctionDeclaration ''void'' ''f'' [] []
                  (ScopeDeclaration
                     [ReturnStatement
                        (BinaryOperation (IntegerLiteral ''1'') ''+''
                           (BinaryOperation (IntegerLiteral ''2'') ''*''
                              (IntegerLiteral ''3'')))])],
            \<lparr>current = 13, success = True\<rparr>)"
  unfolding parse_source_def
  by (simp add: lex_from.simps extend_while.simps lexer_defs cursor_defs expression_defs
      statement_defs numeral_eq_Suc)

section \<open>The cast suffix\<close>

text \<open>The word \<open>as\<close> is not in the keyword list, so it lexes as an identifier.\<close>

lemma lex_cast_texts:
  "Lexer_lex ''a + b as int32'' = Inr
     [\<lparr>category = IDENTIFIER, tvalue = ''a''\<rparr>,
      \<lparr>category = OPERATOR, tvalue = ''+''\<rparr>,
      \<lparr>category = IDENTIFIER, tvalue = ''b''\<rparr>,
      \<lparr>category = IDENTIFIER, tvalue = ''as''\<rparr>,
      \<lparr>category = IDENTIFIER, tvalue = ''int32''\<rparr>]"
  "Lexer_lex ''a < b as int32'' = Inr
     [\<lparr>category = IDENTIFIER, tvalue = ''a''\<rparr>,
      \<lparr>category = OPERATOR, tvalue = ''<''\<rparr>,
      \<lparr>category = IDENTIFIER, tvalue = ''b''\<rparr>,
      \<lparr>category = IDENTIFIER, tvalue = ''as''\<rparr>,
      \<lparr>category = IDENTIFIER, tvalue = ''int32''\<rparr>]"
  by (simp_all add: lex_from.simps extend_while.simps lexer_defs)

lemma expression_cast_of_sum:
  assumes "tvalue t \<notin> set [''as'', ''<'', ''<='', ''>'', ''>='', ''=='', ''!='']"
  shows "expression (n + 5)
           ([\<lparr>category = IDENTIFIER, tvalue = ''a''\<rparr>,
             \<lparr>category = OPERATOR, tvalue = ''+''\<rparr>,
             \<lparr>category = IDENTIFIER, tvalue = ''b''\<rparr>,
             \<lparr>category = IDENTIFIER, tvalue = ''as''\<rparr>,
             \<lparr>category = IDENTIFIER, tvalue = ''int32''\<rparr>] @ t # rest)
           \<lparr>current = 0, success = s\<rparr>
         = (Inr (CastOperation
                   (BinaryOperation (VariableCall ''a'') ''+'' (VariableCall ''b''))
                   ''int32''),
            \<lparr>current = 5, success = s\<rparr>)"
  using assms
  by (simp add: cursor_defs expression_defs numeral_eq_Suc)

lemma expression_cast_in_comparison:
  assumes "tvalue t \<notin> set [''as'', ''<'', ''<='', ''>'', ''>='', ''=='', ''!='']"
  shows "expression (n + 5)
           ([\<lparr>category = IDENTIFIER, tvalue = ''a''\<rparr>,
             \<lparr>category = OPERATOR, tvalue = ''<''\<rparr>,
             \<lparr>category = IDENTIFIER, tvalue = ''b''\<rparr>,
             \<lparr>category = IDENTIFIER, tvalue = ''as''\<rparr>,
             \<lparr>category = IDENTIFIER, tvalue = ''int32''\<rparr>] @ t # rest)
           \<lparr>current = 0, success = s\<rparr>
         = (Inr (BinaryOperation (VariableCall ''a'') ''<''
                   (CastOperation (VariableCall ''b'') ''int32'')),
            \<lparr>current = 5, success = s\<rparr>)"
  using assms
  by (simp add: cursor_defs expression_defs numeral_eq_Suc)

text \<open>The cursor primitives on a cursor inside the token vector.\<close>

lemma peek_in:
  "current st < length tokens \<Longrightarrow> peek tokens st = (Inr (tokens ! current st), st)"
  by (simp add: peek_def tokens_at_def)

lemma advance_in:
  "current st < length tokens \<Longrightarrow>
   advance tokens st = (Inr (tokens ! current st), st\<lparr>current := Suc (current st)\<rparr>)"
  by (simp add: advance_def at_end_def previous_def tokens_at_def)

lemma match_miss:
  "current st < length tokens \<Longrightarrow> tvalue (tokens ! current st) \<notin> set vs \<Longrightarrow>
   match tokens vs st = (Inr False, st)"
  by (induction vs) (simp_all add: bind_p_def peek_in)

lemma match_hit:
  "current st < length tokens \<Longrightarrow> tvalue (tokens ! current st) \<in> set vs \<Longrightarrow>
   match tokens vs st = (Inr True, st\<lparr>current := Suc (current st)\<rparr>)"
  by (induction vs) (auto simp add: bind_p_def return_p_def peek_in advance_in)

text \<open>
  One turn of the cast loop, and the whole loop: over any number of suffixes \<open>as T\<close>
  (a token with the value \<open>as\<close> and the token after it, whatever it is), up to a token
  \<open>t\<close> that is not \<open>as\<close>, each suffix wraps the expression built so far.
\<close>

lemma cast_loop_stop:
  "current st < length tokens \<Longrightarrow> tvalue (tokens ! current st) \<noteq> ''as'' \<Longrightarrow>
   cast_loop (Suc n) tokens e st = (Inr e, st)"
  by (simp add: bind_p_def return_p_def match_miss del: match.simps)

lemma cast_loop_step:
  "Suc (current st) < length tokens \<Longrightarrow> tvalue (tokens ! current st) = ''as'' \<Longrightarrow>
   cast_loop (Suc n) tokens e st =
     cast_loop n tokens (CastOperation e (tvalue (tokens ! Suc (current st))))
       (st\<lparr>current := Suc (Suc (current st))\<rparr>)"
  by (simp add: bind_p_def match_hit advance_in del: match.simps)

lemma cast_loop_suffixes:
  "tokens = pre @ concat (map (\<lambda>(a, ty). [a, ty]) sfx) @ t # rest \<Longrightarrow>
   \<forall>(a, ty) \<in> set sfx. tvalue a = ''as'' \<Longrightarrow> tvalue t \<noteq> ''as'' \<Longrightarrow>
   current st = length pre \<Longrightarrow>
   cast_loop (n + length sfx + 1) tokens e st =
     (Inr (foldl (\<lambda>x (a, ty). CastOperation x (tvalue ty)) e sfx),
      st\<lparr>current := length pre + 2 * length sfx\<rparr>)"
proof (induction sfx arbitrary: pre e st)
  case Nil
  then show ?case
    using cast_loop_stop [of st tokens n e] by simp
next
  case (Cons p sfx)
  obtain a ty where p: "p = (a, ty)" by (cases p)
  let ?st = "st\<lparr>current := Suc (Suc (current st))\<rparr>"
  have toks: "tokens = (pre @ [a, ty]) @ concat (map (\<lambda>(a, ty). [a, ty]) sfx) @ t # rest"
    using Cons.prems(1) p by simp
  have t0: "tokens ! current st = a" and t1: "tokens ! Suc (current st) = ty"
    and len: "Suc (current st) < length tokens"
    using Cons.prems(1,4) p by (simp_all add: nth_append)
  have a: "tvalue a = ''as''" and rest: "\<forall>(a, ty) \<in> set sfx. tvalue a = ''as''"
    using Cons.prems(2) p by simp_all
  have "cast_loop (n + length sfx + 1) tokens (CastOperation e (tvalue ty)) ?st =
      (Inr (foldl (\<lambda>x (a, ty). CastOperation x (tvalue ty)) (CastOperation e (tvalue ty)) sfx),
       ?st\<lparr>current := length (pre @ [a, ty]) + 2 * length sfx\<rparr>)"
    by (rule Cons.IH [OF toks rest Cons.prems(3)]) (simp add: Cons.prems(4))
  then show ?case
    using cast_loop_step [of st tokens "n + length sfx + 1" e] len t0 t1 a p
    by simp
qed


lemma expression_cast_right_operand:
  assumes "op \<in> set [''<'', ''<='', ''>'', ''>='', ''=='', ''!='']"
    and "tvalue u \<notin> set [''as'', ''<'', ''<='', ''>'', ''>='', ''=='', ''!='']"
  shows "expression (m + 6)
           ([\<lparr>category = IDENTIFIER, tvalue = ''a''\<rparr>, \<lparr>category = OPERATOR, tvalue = op\<rparr>, \<lparr>category = IDENTIFIER, tvalue = ''b''\<rparr>,
             \<lparr>category = IDENTIFIER, tvalue = ''as''\<rparr>, \<lparr>category = IDENTIFIER, tvalue = ''int32''\<rparr>] @ u # others)
           \<lparr>current = 0, success = s\<rparr>
         = (Inr (BinaryOperation (VariableCall ''a'') op
                   (CastOperation (VariableCall ''b'') ''int32'')),
            \<lparr>current = 5, success = s\<rparr>)"
proof -
  from assms(1) consider "op = ''<''" | "op = ''<=''" | "op = ''>''" | "op = ''>=''"
    | "op = ''==''" | "op = ''!=''"
    by auto
  then show ?thesis
  proof cases
    case 1
    with assms(2) show ?thesis
      by (simp add: cursor_defs expression_defs numeral_eq_Suc)
  next
    case 2
    with assms(2) show ?thesis
      by (simp add: cursor_defs expression_defs numeral_eq_Suc)
  next
    case 3
    with assms(2) show ?thesis
      by (simp add: cursor_defs expression_defs numeral_eq_Suc)
  next
    case 4
    with assms(2) show ?thesis
      by (simp add: cursor_defs expression_defs numeral_eq_Suc)
  next
    case 5
    with assms(2) show ?thesis
      by (simp add: cursor_defs expression_defs numeral_eq_Suc)
  next
    case 6
    with assms(2) show ?thesis
      by (simp add: cursor_defs expression_defs numeral_eq_Suc)
  qed
qed

lemma expression_double_cast:
  assumes "tvalue u \<notin> set [''as'', ''<'', ''<='', ''>'', ''>='', ''=='', ''!='']"
  shows "\<exists>tokens. Lexer_lex ''a + b as int32 as int64'' = Inr tokens \<and>
           expression (m + 6) (tokens @ u # others) \<lparr>current = 0, success = s\<rparr>
             = (Inr (CastOperation (CastOperation (BinaryOperation (VariableCall ''a'') ''+'' (VariableCall ''b'')) ''int32'') ''int64''),
                \<lparr>current = 7, success = s\<rparr>)"
  using assms
  by (simp add: lex_from.simps extend_while.simps lexer_defs cursor_defs expression_defs
      numeral_eq_Suc)

text \<open>
  Claim C7: the expression \<open>a + b as int32\<close> parses to
  \<open>CastOperation(BinaryOperation(+, a, b), int32)\<close>; each trailing suffix \<open>as T\<close> wraps the
  whole expression built at the term level, so \<open>as\<close> binds tighter than comparison and
  equality and looser than addition. The first part is \<open>cast\<close> in general: whatever \<open>term\<close>
  returns, and however many suffixes follow it, the result is that expression wrapped once
  per suffix, from the left. The second part is the text of the claim. The third part has
  a cast in the right operand of each comparison and equality operator \<open>op\<close>, where it wraps
  the operand \<open>b\<close> alone. The token \<open>u\<close> after an expression does not continue it.
\<close>

theorem cast_wraps_term_level:
  assumes "tokens = pre @ concat (map (\<lambda>(a, ty). [a, ty]) sfx) @ t # rest"
    and "\<forall>(a, ty) \<in> set sfx. tvalue a = ''as''"
    and "tvalue t \<noteq> ''as''"
    and "term_expr (n + length sfx + 1) inner tokens st = (Inr e, st')"
    and "current st' = length pre"
    and "op \<in> set [''<'', ''<='', ''>'', ''>='', ''=='', ''!='']"
    and "tvalue u \<notin> set [''as'', ''<'', ''<='', ''>'', ''>='', ''=='', ''!='']"
  shows "cast (n + length sfx + 1) inner tokens st
           = (Inr (foldl (\<lambda>x (a, ty). CastOperation x (tvalue ty)) e sfx),
              st'\<lparr>current := length pre + 2 * length sfx\<rparr>) \<and>
         (\<exists>toks. Lexer_lex ''a + b as int32'' = Inr toks \<and>
            expression (m + 5) (toks @ u # others) \<lparr>current = 0, success = s\<rparr>
              = (Inr (CastOperation (BinaryOperation (VariableCall ''a'') ''+'' (VariableCall ''b'')) ''int32''),
                 \<lparr>current = 5, success = s\<rparr>)) \<and>
         expression (m + 6)
           ([\<lparr>category = IDENTIFIER, tvalue = ''a''\<rparr>, \<lparr>category = OPERATOR, tvalue = op\<rparr>, \<lparr>category = IDENTIFIER, tvalue = ''b''\<rparr>,
             \<lparr>category = IDENTIFIER, tvalue = ''as''\<rparr>, \<lparr>category = IDENTIFIER, tvalue = ''int32''\<rparr>] @ u # others)
           \<lparr>current = 0, success = s\<rparr>
           = (Inr (BinaryOperation (VariableCall ''a'') op
                     (CastOperation (VariableCall ''b'') ''int32'')),
              \<lparr>current = 5, success = s\<rparr>)"
proof -
  have "cast (n + length sfx + 1) inner tokens st
          = cast_loop (n + length sfx + 1) tokens e st'"
    using assms(4) by (simp add: cast_def bind_p_def)
  then have 1: "cast (n + length sfx + 1) inner tokens st
           = (Inr (foldl (\<lambda>x (a, ty). CastOperation x (tvalue ty)) e sfx),
              st'\<lparr>current := length pre + 2 * length sfx\<rparr>)"
    using cast_loop_suffixes [OF assms(1,2,3,5)] by simp
  show ?thesis
    using 1 lex_cast_texts(1) expression_cast_of_sum [OF assms(7), of m others s]
      expression_cast_right_operand [OF assms(6,7), of m others s]
    by simp
qed

theorem cast_wraps_term_level_witness:
  "cast 3
     (expression 3 [\<lparr>category = IDENTIFIER, tvalue = ''a''\<rparr>, \<lparr>category = OPERATOR, tvalue = ''+''\<rparr>, \<lparr>category = IDENTIFIER, tvalue = ''b''\<rparr>,
        \<lparr>category = IDENTIFIER, tvalue = ''as''\<rparr>, \<lparr>category = IDENTIFIER, tvalue = ''int32''\<rparr>,
        \<lparr>category = IDENTIFIER, tvalue = ''as''\<rparr>, \<lparr>category = IDENTIFIER, tvalue = ''int64''\<rparr>, \<lparr>category = PUNCTUATOR, tvalue = '';''\<rparr>])
     [\<lparr>category = IDENTIFIER, tvalue = ''a''\<rparr>, \<lparr>category = OPERATOR, tvalue = ''+''\<rparr>, \<lparr>category = IDENTIFIER, tvalue = ''b''\<rparr>,
      \<lparr>category = IDENTIFIER, tvalue = ''as''\<rparr>, \<lparr>category = IDENTIFIER, tvalue = ''int32''\<rparr>,
      \<lparr>category = IDENTIFIER, tvalue = ''as''\<rparr>, \<lparr>category = IDENTIFIER, tvalue = ''int64''\<rparr>, \<lparr>category = PUNCTUATOR, tvalue = '';''\<rparr>]
     \<lparr>current = 0, success = True\<rparr>
   = (Inr (CastOperation (CastOperation (BinaryOperation (VariableCall ''a'') ''+'' (VariableCall ''b'')) ''int32'') ''int64''),
      \<lparr>current = 7, success = True\<rparr>) \<and>
   expression 6
     ([\<lparr>category = IDENTIFIER, tvalue = ''a''\<rparr>, \<lparr>category = OPERATOR, tvalue = ''==''\<rparr>, \<lparr>category = IDENTIFIER, tvalue = ''b''\<rparr>,
       \<lparr>category = IDENTIFIER, tvalue = ''as''\<rparr>, \<lparr>category = IDENTIFIER, tvalue = ''int32''\<rparr>] @ [\<lparr>category = PUNCTUATOR, tvalue = '';''\<rparr>])
     \<lparr>current = 0, success = True\<rparr>
   = (Inr (BinaryOperation (VariableCall ''a'') ''==''
             (CastOperation (VariableCall ''b'') ''int32'')),
      \<lparr>current = 5, success = True\<rparr>)"
proof -
  let ?pre = "[\<lparr>category = IDENTIFIER, tvalue = ''a''\<rparr>, \<lparr>category = OPERATOR, tvalue = ''+''\<rparr>, \<lparr>category = IDENTIFIER, tvalue = ''b''\<rparr>]"
  let ?sfx = "[(\<lparr>category = IDENTIFIER, tvalue = ''as''\<rparr>, \<lparr>category = IDENTIFIER, tvalue = ''int32''\<rparr>),
      (\<lparr>category = IDENTIFIER, tvalue = ''as''\<rparr>, \<lparr>category = IDENTIFIER, tvalue = ''int64''\<rparr>)]"
  let ?t = "\<lparr>category = PUNCTUATOR, tvalue = '';''\<rparr>"
  let ?tokens = "?pre @ concat (map (\<lambda>(a, ty). [a, ty]) ?sfx) @ ?t # []"
  let ?st' = "\<lparr>current = 3, success = True\<rparr>"
  have h1: "?tokens = ?pre @ concat (map (\<lambda>(a, ty). [a, ty]) ?sfx) @ ?t # []" ..
  have h2: "\<forall>(a, ty) \<in> set ?sfx. tvalue a = ''as''" by simp
  have h3: "tvalue ?t \<noteq> ''as''" by simp
  have h4: "term_expr (0 + length ?sfx + 1) (expression 3 ?tokens) ?tokens
              \<lparr>current = 0, success = True\<rparr> = (Inr (BinaryOperation (VariableCall ''a'') ''+'' (VariableCall ''b'')), ?st')"
    by (simp add: cursor_defs expression_defs numeral_eq_Suc)
  have h5: "current ?st' = length ?pre" by simp
  have h6: "''=='' \<in> set [''<'', ''<='', ''>'', ''>='', ''=='', ''!='']" by simp
  have h7: "tvalue ?t \<notin> set [''as'', ''<'', ''<='', ''>'', ''>='', ''=='', ''!='']" by simp
  from cast_wraps_term_level [OF h1 h2 h3 h4 h5 h6 h7, of 0 "[]" True]
  show ?thesis by (simp add: numeral_eq_Suc)
qed

section \<open>Assignments\<close>

text \<open>
  Claim C8: for an assignment statement \<open>id op= expr;\<close> with \<open>op\<close> one of \<open>+ - * / %\<close>, the
  parser returns \<open>VariableAssignment(id, BinaryOperation(op, VariableCall(id), expr))\<close>,
  and for \<open>id = expr;\<close> it returns \<open>VariableAssignment(id, expr)\<close>. Here the cursor stands
  on the token of \<open>id\<close>, the next token is the operator, \<open>e\<close> is what \<open>expression\<close> returns
  for the tokens after it, and the token after the expression is \<open>;\<close>.
\<close>

theorem variable_assignment_desugars:
  assumes "current st + 1 < length tokens"
    and "category (tokens ! (current st + 1)) = OPERATOR"
    and "tvalue (tokens ! (current st + 1)) \<in> set [''='', ''+='', ''-='', ''*='', ''/='', ''%='']"
    and "expression n tokens (st\<lparr>current := current st + 2\<rparr>) = (Inr e, st')"
    and "current st' < length tokens"
    and "tvalue (tokens ! current st') = '';''"
  shows "variable_assignment n tokens st =
     (Inr (VariableAssignment (tvalue (tokens ! current st))
             (if tvalue (tokens ! (current st + 1)) = ''='' then e
              else BinaryOperation (VariableCall (tvalue (tokens ! current st)))
                     (butlast (tvalue (tokens ! (current st + 1)))) e)),
      st'\<lparr>current := current st' + 1\<rparr>)"
proof -
  have idx: "nat (1 + int k) = Suc k" for k
    by simp
  have adv1: "advance tokens st = (Inr (tokens ! current st), st\<lparr>current := Suc (current st)\<rparr>)"
    using assms(1) by (simp add: advance_def at_end_def previous_def tokens_at_def)
  have pk: "peek tokens (st\<lparr>current := Suc (current st)\<rparr>)
      = (Inr (tokens ! Suc (current st)), st\<lparr>current := Suc (current st)\<rparr>)"
    using assms(1) by (simp add: peek_def tokens_at_def idx)
  have adv2: "advance tokens (st\<lparr>current := Suc (current st)\<rparr>)
      = (Inr (tokens ! Suc (current st)), st\<lparr>current := Suc (Suc (current st))\<rparr>)"
    using assms(1) by (simp add: advance_def at_end_def previous_def tokens_at_def idx)
  have cat: "category (tokens ! Suc (current st)) = OPERATOR"
    using assms(2) by simp
  have ex: "expression n tokens (st\<lparr>current := Suc (Suc (current st))\<rparr>) = (Inr e, st')"
    using assms(4) by simp
  have cons: "consume tokens '';'' msg st'
      = (Inr (tokens ! current st'), st'\<lparr>current := Suc (current st')\<rparr>)" for msg
    using assms(5,6) by (simp add: consume_def bind_p_def peek_def tokens_at_def)
  have run: "variable_assignment n tokens st =
     (if tvalue (tokens ! Suc (current st)) = ''=''
      then (Inr (VariableAssignment (tvalue (tokens ! current st)) e),
            st'\<lparr>current := Suc (current st')\<rparr>)
      else (Inr (VariableAssignment (tvalue (tokens ! current st))
              (BinaryOperation (VariableCall (tvalue (tokens ! current st)))
                 (if tvalue (tokens ! Suc (current st)) = ''+='' then ''+''
                  else if tvalue (tokens ! Suc (current st)) = ''-='' then ''-''
                  else if tvalue (tokens ! Suc (current st)) = ''*='' then ''*''
                  else if tvalue (tokens ! Suc (current st)) = ''/='' then ''/''
                  else if tvalue (tokens ! Suc (current st)) = ''%='' then ''%''
                  else [])
                 e)),
            st'\<lparr>current := Suc (current st')\<rparr>))"
    by (simp add: variable_assignment_def bind_p_def return_p_def adv1 pk adv2 cat ex cons)
  from assms(3) show ?thesis
    unfolding run by auto
qed

theorem variable_assignment_desugars_witness:
  "variable_assignment 3
     [\<lparr>category = IDENTIFIER, tvalue = ''x''\<rparr>, \<lparr>category = OPERATOR, tvalue = ''+=''\<rparr>,
      \<lparr>category = INTEGER_LITERAL, tvalue = ''1''\<rparr>, \<lparr>category = PUNCTUATOR, tvalue = '';''\<rparr>]
     \<lparr>current = 0, success = True\<rparr>
   = (Inr (VariableAssignment ''x''
             (BinaryOperation (VariableCall ''x'') ''+'' (IntegerLiteral ''1''))),
      \<lparr>current = 4, success = True\<rparr>)"
proof -
  let ?tokens = "[\<lparr>category = IDENTIFIER, tvalue = ''x''\<rparr>, \<lparr>category = OPERATOR, tvalue = ''+=''\<rparr>,
      \<lparr>category = INTEGER_LITERAL, tvalue = ''1''\<rparr>, \<lparr>category = PUNCTUATOR, tvalue = '';''\<rparr>]"
  let ?st = "\<lparr>current = 0, success = True\<rparr>"
  let ?st' = "\<lparr>current = 3, success = True\<rparr>"
  have e: "expression 3 ?tokens (?st\<lparr>current := current ?st + 2\<rparr>) = (Inr (IntegerLiteral ''1''), ?st')"
    by (simp add: cursor_defs expression_defs numeral_eq_Suc)
  have "variable_assignment 3 ?tokens ?st =
     (Inr (VariableAssignment (tvalue (?tokens ! current ?st))
             (if tvalue (?tokens ! (current ?st + 1)) = ''='' then IntegerLiteral ''1''
              else BinaryOperation (VariableCall (tvalue (?tokens ! current ?st)))
                     (butlast (tvalue (?tokens ! (current ?st + 1)))) (IntegerLiteral ''1''))),
      ?st'\<lparr>current := current ?st' + 1\<rparr>)"
    by (rule variable_assignment_desugars [OF _ _ _ e]) simp_all
  then show ?thesis by simp
qed

text \<open>
  \<open>statement\<close> hands such a statement to \<open>variable_assignment\<close>: an identifier token that
  is none of the words \<open>statement\<close> tests first, followed by an assignment operator.
\<close>

lemma statement_dispatches_assignment:
  assumes "current st + 1 < length tokens"
    and "category (tokens ! current st) = IDENTIFIER"
    and "tvalue (tokens ! current st) \<notin> set [''{'', ''if'', ''else'', ''while'', ''return'']"
    and "tvalue (tokens ! (current st + 1)) \<in> set [''='', ''+='', ''-='', ''*='', ''/='', ''%='']"
  shows "statement (Suc n) tokens st = variable_assignment n tokens st"
proof -
  have idx: "nat (int k + 1) = Suc k" for k
    by simp
  have pk: "peek tokens st = (Inr (tokens ! current st), st)"
    using assms(1) by (simp add: peek_def tokens_at_def)
  have no: "match tokens [v] st = (Inr False, st)" if "tvalue (tokens ! current st) \<noteq> v" for v
    using that by (simp add: bind_p_def pk)
  have no2: "match tokens [v, w] st = (Inr False, st)"
    if "tvalue (tokens ! current st) \<noteq> v" "tvalue (tokens ! current st) \<noteq> w" for v w
    using that by (simp add: bind_p_def pk)
  have nx: "next_token tokens st = (Inr (tokens ! Suc (current st)), st)"
    using assms(1) by (simp add: next_token_def at_end_def tokens_at_def idx)
  have yes: "match_next tokens [''='', ''+='', ''-='', ''*='', ''/='', ''%=''] st = (Inr True, st)"
    using assms(4) by (auto simp add: bind_p_def return_p_def nx)
  from assms(3) have ne: "tvalue (tokens ! current st) \<noteq> ''{''"
    "tvalue (tokens ! current st) \<noteq> ''if''" "tvalue (tokens ! current st) \<noteq> ''else''"
    "tvalue (tokens ! current st) \<noteq> ''while''" "tvalue (tokens ! current st) \<noteq> ''return''"
    by simp_all
  show ?thesis
    by (simp add: bind_p_def Let_def no [OF ne(1)] no2 [OF ne(2,3)] no [OF ne(4)] no [OF ne(5)]
        pk assms(2) yes del: match.simps match_next.simps)
qed

text \<open>The two forms through \<open>statement\<close>, from the source text.\<close>

lemma statement_compound_assignment:
  "\<exists>tokens. Lexer_lex ''x += 1;'' = Inr tokens \<and>
     statement (n + 4) tokens \<lparr>current = 0, success = True\<rparr>
       = (Inr (VariableAssignment ''x''
                 (BinaryOperation (VariableCall ''x'') ''+'' (IntegerLiteral ''1''))),
          \<lparr>current = 4, success = True\<rparr>)"
  by (simp add: lex_from.simps extend_while.simps lexer_defs cursor_defs expression_defs
      statement_defs numeral_eq_Suc)

lemma statement_plain_assignment:
  "\<exists>tokens. Lexer_lex ''x = 1;'' = Inr tokens \<and>
     statement (n + 4) tokens \<lparr>current = 0, success = True\<rparr>
       = (Inr (VariableAssignment ''x'' (IntegerLiteral ''1'')),
          \<lparr>current = 4, success = True\<rparr>)"
  by (simp add: lex_from.simps extend_while.simps lexer_defs cursor_defs expression_defs
      statement_defs numeral_eq_Suc)

end
